theory Spec2Isabelle
  imports Complex_Main "HOL-Library.Word"
begin

section \<open>Tensors and the tensor registry of the numeric library\<close>

text \<open>
  The page (\<^verbatim>\<open>Home\<close>) works on tensors of the numeric library. A tensor is an
  immutable handle: an identifier under which the library's engine counts it as live, a
  shape, and the values in row-major order. Every operation of the library returns a new
  tensor, which stays live until \<^verbatim>\<open>dispose\<close> is called on it. The registry here
  counts the tensors made after the model was built; the weights of the model are not
  entered in it.
\<close>

record 'a tensor =
  tid :: nat
  shape :: "nat list"
  vals :: "'a list"

record engine =
  live :: "nat list"
  nextId :: nat

datatype error = InvalidImage | RankError | ShapeMismatch | BackendError

definition makeTensor :: "nat list \<Rightarrow> 'a list \<Rightarrow> engine \<Rightarrow> 'a tensor \<times> engine" where
  "makeTensor sh vs e =
     (\<lparr>tid = nextId e, shape = sh, vals = vs\<rparr>,
      e\<lparr>live := nextId e # live e, nextId := Suc (nextId e)\<rparr>)"

definition dispose :: "'a tensor \<Rightarrow> engine \<Rightarrow> engine" where
  "dispose t e = e\<lparr>live := removeAll (tid t) (live e)\<rparr>"

definition numTensors :: "engine \<Rightarrow> nat" where
  "numTensors e = length (live e)"

section \<open>Decoded images\<close>

text \<open>
  A decoded image as the browser hands it to \<^verbatim>\<open>tf.browser.fromPixels\<close>: its
  dimensions and its pixels as bytes, four (red, green, blue, alpha) per pixel, row after
  row. Whatever the colour depth of the file, the decoded pixels are 8-bit channels.
\<close>

record image =
  width :: nat
  height :: nat
  data :: "8 word list"

definition valid_image :: "image \<Rightarrow> bool" where
  "valid_image img =
     (0 < width img \<and> 0 < height img \<and> length (data img) = 4 * (width img * height img))"

section \<open>The operations of the preprocessing chain\<close>

text \<open>
  \<^verbatim>\<open>tf.browser.fromPixels(img)\<close> with the default three channels: an integer tensor
  of shape (height, width, 3) that keeps the first three bytes of every pixel. An image
  without pixels makes it throw.
\<close>

definition fromPixels :: "image \<Rightarrow> engine \<Rightarrow> error + (int tensor \<times> engine)" where
  "fromPixels img e =
     (if width img = 0 \<or> height img = 0 then Inl InvalidImage
      else Inr (makeTensor [height img, width img, 3]
        (concat (map (\<lambda>i. map (\<lambda>c. int (unat (data img ! (i * 4 + c)))) [0..<3])
           [0..<width img * height img])) e))"

text \<open>
  \<^verbatim>\<open>resizeNearestNeighbor\<close> with its defaults (no aligned corners, no half-pixel
  centres): output row \<open>r\<close> reads the input row
  \<open>Math.min(oldHeight - 1, Math.floor((oldHeight / newHeight) * r))\<close>, and columns
  alike. The quotient and the product are JavaScript numbers, that is binary64
  floating point, and each is rounded to 53 significant bits, to nearest and ties to
  even. The sizes are exact in binary64, and so small that no result is subnormal or
  overflows.

  A positive binary64 number is a pair \<open>(m, e)\<close> standing for \<open>m * 2 ^ e\<close>.
\<close>

fun bits :: "nat \<Rightarrow> nat" where
  "bits n = (if n = 0 then 0 else Suc (bits (n div 2)))"

declare bits.simps [simp del]

definition roundHalfEven :: "nat \<Rightarrow> nat \<Rightarrow> nat" where
  "roundHalfEven n d =
     (let q = n div d; r = n mod d
      in if d < 2 * r \<or> (2 * r = d \<and> odd q) then q + 1 else q)"

text \<open>The quotient \<open>n / d\<close> of two positive integers, rounded to binary64.\<close>

definition float64_quot :: "nat \<Rightarrow> nat \<Rightarrow> nat \<times> int" where
  "float64_quot n d =
     (if n = 0 then (0, 0)
      else
        (let l = (if d * 2 ^ bits n \<le> n * 2 ^ bits d
                  then int (bits n) - int (bits d)
                  else int (bits n) - int (bits d) - 1);
             e = l - 52
         in (if 0 \<le> e then roundHalfEven n (d * 2 ^ nat e)
             else roundHalfEven (n * 2 ^ nat (- e)) d, e)))"

text \<open>The product of a binary64 number and an integer, rounded to binary64.\<close>

definition float64_times :: "nat \<times> int \<Rightarrow> nat \<Rightarrow> nat \<times> int" where
  "float64_times x i =
     (case x of (m, e) \<Rightarrow> (case float64_quot (m * i) 1 of (m', e') \<Rightarrow> (m', e + e')))"

definition float64_floor :: "nat \<times> int \<Rightarrow> nat" where
  "float64_floor x =
     (case x of (m, e) \<Rightarrow> if 0 \<le> e then m * 2 ^ nat e else m div 2 ^ nat (- e))"

definition sourceNearest :: "nat \<Rightarrow> nat \<Rightarrow> nat \<Rightarrow> nat" where
  "sourceNearest oldSize newSize i =
     min (oldSize - 1) (float64_floor (float64_times (float64_quot oldSize newSize) i))"

definition resizeNearestNeighbor ::
  "'a tensor \<Rightarrow> nat \<Rightarrow> nat \<Rightarrow> engine \<Rightarrow> error + ('a tensor \<times> engine)" where
  "resizeNearestNeighbor t newHeight newWidth e =
     (case shape t of
        [oldHeight, oldWidth, depth] \<Rightarrow>
          Inr (makeTensor [newHeight, newWidth, depth]
            (concat (map (\<lambda>r. concat (map (\<lambda>c. map (\<lambda>d.
                vals t ! ((sourceNearest oldHeight newHeight r * oldWidth
                            + sourceNearest oldWidth newWidth c) * depth + d))
              [0..<depth]) [0..<newWidth])) [0..<newHeight])) e)
      | _ \<Rightarrow> Inl RankError)"

definition toFloat :: "int tensor \<Rightarrow> engine \<Rightarrow> real tensor \<times> engine" where
  "toFloat t e = makeTensor (shape t) (map real_of_int (vals t)) e"

definition tensor_div :: "real tensor \<Rightarrow> real \<Rightarrow> engine \<Rightarrow> real tensor \<times> engine" where
  "tensor_div t s e = makeTensor (shape t) (map (\<lambda>v. v / s) (vals t)) e"

definition expandDims :: "'a tensor \<Rightarrow> nat \<Rightarrow> engine \<Rightarrow> 'a tensor \<times> engine" where
  "expandDims t axis e =
     makeTensor (take axis (shape t) @ [1] @ drop axis (shape t)) (vals t) e"

text \<open>
  \<^verbatim>\<open>preprocessImage\<close>: the chain runs in the image's \<^verbatim>\<open>onload\<close> handler and
  the promise resolves with its result. The promise has no reject path: when the handler
  throws, the promise never settles, which is the result \<open>None\<close> here. The registry is
  returned as the chain left it.
\<close>

definition preprocessImage :: "image \<Rightarrow> engine \<Rightarrow> real tensor option \<times> engine" where
  "preprocessImage img e =
     (case fromPixels img e of
        Inl err \<Rightarrow> (None, e)
      | Inr (t1, e1) \<Rightarrow>
          (case resizeNearestNeighbor t1 224 224 e1 of
             Inl err \<Rightarrow> (None, e1)
           | Inr (t2, e2) \<Rightarrow>
               (let (t3, e3) = toFloat t2 e2;
                    (t4, e4) = tensor_div t3 255.0 e3;
                    (t5, e5) = expandDims t4 0 e4
                in (Some t5, e5))))"

section \<open>The network\<close>

text \<open>
  The layer configurations that \<^verbatim>\<open>loadModel\<close> passes to \<^verbatim>\<open>tf.sequential\<close>,
  with the arguments the source gives: \<^verbatim>\<open>inputShape\<close> (first layer only),
  \<^verbatim>\<open>kernelSize\<close>, \<^verbatim>\<open>filters\<close>, \<^verbatim>\<open>activation\<close>, \<^verbatim>\<open>poolSize\<close>,
  \<^verbatim>\<open>rate\<close> and \<^verbatim>\<open>units\<close>.
\<close>

datatype activation = Relu | Softmax

datatype layer =
    Conv2d "nat list option" nat nat activation
  | MaxPooling2d nat
  | Flatten
  | Dropout real
  | Dense nat activation

datatype optimizer_config = Adam real

record compile_args =
  optimizer :: optimizer_config
  loss :: string
  metrics :: "string list"

text \<open>
  A model: its layers, its compilation, and the weights of layer \<open>i\<close> as
  \<open>kernel m i\<close> and \<open>bias m i\<close>, read by flat index.
\<close>

record layersModel =
  layers :: "layer list"
  compiled :: "compile_args option"
  kernel :: "nat \<Rightarrow> nat \<Rightarrow> real"
  bias :: "nat \<Rightarrow> nat \<Rightarrow> real"

definition sequential ::
  "layer list \<Rightarrow> (nat \<Rightarrow> nat \<Rightarrow> real) \<Rightarrow> (nat \<Rightarrow> nat \<Rightarrow> real) \<Rightarrow> layersModel" where
  "sequential ls initKernel initBias =
     \<lparr>layers = ls, compiled = None, kernel = initKernel, bias = initBias\<rparr>"

definition compile :: "compile_args \<Rightarrow> layersModel \<Rightarrow> layersModel" where
  "compile args m = m\<lparr>compiled := Some args\<rparr>"

text \<open>
  The construction inside \<^verbatim>\<open>loadModel\<close> (the call of \<^verbatim>\<open>tf.sequential\<close> and of
  \<^verbatim>\<open>model.compile\<close>). The library draws the initial weights at random; they are the
  two parameters.
\<close>

definition buildModel :: "(nat \<Rightarrow> nat \<Rightarrow> real) \<Rightarrow> (nat \<Rightarrow> nat \<Rightarrow> real) \<Rightarrow> layersModel" where
  "buildModel initKernel initBias =
     compile \<lparr>optimizer = Adam 0.001, loss = ''categoricalCrossentropy'',
              metrics = [''accuracy'']\<rparr>
       (sequential
          [Conv2d (Some [224, 224, 3]) 3 32 Relu,
           MaxPooling2d 2,
           Conv2d None 3 64 Relu,
           MaxPooling2d 2,
           Conv2d None 3 128 Relu,
           MaxPooling2d 2,
           Flatten,
           Dropout 0.5,
           Dense 128 Relu,
           Dropout 0.3,
           Dense 2 Softmax]
          initKernel initBias)"

subsection \<open>The forward pass\<close>

definition maxList :: "real list \<Rightarrow> real" where
  "maxList vs = (case vs of [] \<Rightarrow> 0 | v # rest \<Rightarrow> fold max rest v)"

text \<open>
  Softmax over one vector of logits, as the library computes it: subtract the largest
  logit, exponentiate, divide by the sum.
\<close>

definition softmax :: "real list \<Rightarrow> real list" where
  "softmax logits =
     (let b = map (\<lambda>v. exp (v - maxList logits)) logits
      in map (\<lambda>v. v / sum_list b) b)"

fun activate :: "activation \<Rightarrow> real list \<Rightarrow> real list" where
  "activate Relu vs = map (\<lambda>v. max 0 v) vs"
| "activate Softmax vs = softmax vs"

text \<open>
  Convolution with stride 1 and no padding over a batch of shape (b, h, w, c); the
  kernel is laid out (row, column, input channel, filter). The activation runs over the
  last axis.
\<close>

definition conv2d_vals ::
  "(nat \<Rightarrow> real) \<Rightarrow> (nat \<Rightarrow> real) \<Rightarrow> nat \<Rightarrow> nat \<Rightarrow> activation \<Rightarrow>
   nat \<Rightarrow> nat \<Rightarrow> nat \<Rightarrow> nat \<Rightarrow> real list \<Rightarrow> real list" where
  "conv2d_vals K B k f act b h w c xs =
     concat (map (\<lambda>n. concat (map (\<lambda>i. concat (map (\<lambda>j.
       activate act (map (\<lambda>o'. B o' +
         sum_list (map (\<lambda>di. sum_list (map (\<lambda>dj. sum_list (map (\<lambda>ch.
           xs ! (((n * h + i + di) * w + (j + dj)) * c + ch)
             * K (((di * k + dj) * c + ch) * f + o'))
         [0..<c])) [0..<k])) [0..<k])) [0..<f]))
       [0..<w - k + 1])) [0..<h - k + 1])) [0..<b])"

text \<open>Max pooling with a square window, stride equal to the window, no padding.\<close>

definition maxpool_vals ::
  "nat \<Rightarrow> nat \<Rightarrow> nat \<Rightarrow> nat \<Rightarrow> nat \<Rightarrow> real list \<Rightarrow> real list" where
  "maxpool_vals p b h w c xs =
     concat (map (\<lambda>n. concat (map (\<lambda>i. concat (map (\<lambda>j. map (\<lambda>ch.
       maxList (concat (map (\<lambda>di. map (\<lambda>dj.
         xs ! (((n * h + i * p + di) * w + (j * p + dj)) * c + ch))
       [0..<p]) [0..<p])))
       [0..<c]) [0..<(w - p) div p + 1])) [0..<(h - p) div p + 1])) [0..<b])"

definition dense_vals ::
  "(nat \<Rightarrow> real) \<Rightarrow> (nat \<Rightarrow> real) \<Rightarrow> nat \<Rightarrow> activation \<Rightarrow> nat \<Rightarrow> nat \<Rightarrow> real list
   \<Rightarrow> real list" where
  "dense_vals K B units act b n xs =
     concat (map (\<lambda>s. activate act (map (\<lambda>o'. B o' +
       sum_list (map (\<lambda>i. xs ! (s * n + i) * K (i * units + o')) [0..<n]))
       [0..<units])) [0..<b])"

text \<open>
  The random source of the page, \<^verbatim>\<open>Math.random\<close>, from which the library also seeds
  its own draws: its state is the sequence of the numbers it has yet to return.
\<close>

type_synonym rng = "nat \<Rightarrow> real"

text \<open>
  Dropout in training: one uniform draw per value; a value whose draw is below the
  rate is zeroed, the others are scaled by \<open>1 / (1 - rate)\<close>. The draws are used up.
\<close>

definition dropout_vals :: "real \<Rightarrow> rng \<Rightarrow> real list \<Rightarrow> real list" where
  "dropout_vals rate g xs =
     map (\<lambda>i. if g i < rate then 0 else xs ! i / (1 - rate)) [0..<length xs]"

definition advance :: "nat \<Rightarrow> rng \<Rightarrow> rng" where
  "advance n g = (\<lambda>i. g (i + n))"

text \<open>
  One layer, on a shape and its values, in training or in inference mode, with the
  random source before and after. Only dropout in training mode draws from the source;
  in inference mode dropout is the identity. A layer that cannot take its input throws.
\<close>

fun apply_layer ::
  "(nat \<Rightarrow> real) \<Rightarrow> (nat \<Rightarrow> real) \<Rightarrow> bool \<Rightarrow> rng \<Rightarrow> layer \<Rightarrow> nat list \<times> real list
   \<Rightarrow> (error + (nat list \<times> real list)) \<times> rng" where
  "apply_layer K B training g (Conv2d ish k f act) (sh, xs) =
     (case sh of
        [b, h, w, c] \<Rightarrow>
          if k = 0 \<or> h < k \<or> w < k then (Inl ShapeMismatch, g)
          else (Inr ([b, h - k + 1, w - k + 1, f], conv2d_vals K B k f act b h w c xs), g)
      | _ \<Rightarrow> (Inl RankError, g))"
| "apply_layer K B training g (MaxPooling2d p) (sh, xs) =
     (case sh of
        [b, h, w, c] \<Rightarrow>
          if p = 0 \<or> h < p \<or> w < p then (Inl ShapeMismatch, g)
          else (Inr ([b, (h - p) div p + 1, (w - p) div p + 1, c],
                     maxpool_vals p b h w c xs), g)
      | _ \<Rightarrow> (Inl RankError, g))"
| "apply_layer K B training g Flatten (sh, xs) =
     (case sh of
        [] \<Rightarrow> (Inl RankError, g)
      | b # rest \<Rightarrow> (Inr ([b, prod_list rest], xs), g))"
| "apply_layer K B training g (Dropout rate) (sh, xs) =
     (if training \<and> 0 < rate \<and> rate < 1
      then (Inr (sh, dropout_vals rate g xs), advance (length xs) g)
      else (Inr (sh, xs), g))"
| "apply_layer K B training g (Dense units act) (sh, xs) =
     (case sh of
        [b, n] \<Rightarrow> (Inr ([b, units], dense_vals K B units act b n xs), g)
      | _ \<Rightarrow> (Inl RankError, g))"

fun forward ::
  "(nat \<Rightarrow> nat \<Rightarrow> real) \<Rightarrow> (nat \<Rightarrow> nat \<Rightarrow> real) \<Rightarrow> bool \<Rightarrow> rng \<Rightarrow> nat \<Rightarrow> layer list
   \<Rightarrow> nat list \<times> real list \<Rightarrow> (error + (nat list \<times> real list)) \<times> rng" where
  "forward K B training g i [] x = (Inr x, g)"
| "forward K B training g i (l # ls) x =
     (case apply_layer (K i) (B i) training g l x of
        (Inl err, g') \<Rightarrow> (Inl err, g')
      | (Inr y, g') \<Rightarrow> forward K B training g' (Suc i) ls y)"

definition modelInputShape :: "layer list \<Rightarrow> nat list option" where
  "modelInputShape ls = (case ls of Conv2d (Some sh) k f act # rest \<Rightarrow> Some sh | _ \<Rightarrow> None)"

text \<open>
  \<^verbatim>\<open>model.predict(x)\<close>, a method of the model object: it is given the model, the
  random source and the registry, and returns them as the call left them. The input must
  have the model's input shape behind its batch dimension; the layers run in inference
  mode; the result is one new tensor (the library disposes of the intermediate ones
  itself).
\<close>

definition predict ::
  "layersModel \<Rightarrow> real tensor \<Rightarrow> rng \<Rightarrow> engine
   \<Rightarrow> (error + (real tensor \<times> engine)) \<times> layersModel \<times> rng" where
  "predict m x g e =
     (case modelInputShape (layers m) of
        None \<Rightarrow> (Inl ShapeMismatch, m, g)
      | Some ish \<Rightarrow>
          (case shape x of
             [] \<Rightarrow> (Inl ShapeMismatch, m, g)
           | b # sh \<Rightarrow>
               if sh = ish then
                 (case forward (kernel m) (bias m) False g 0 (layers m) (shape x, vals x) of
                    (Inl err, g') \<Rightarrow> (Inl err, m, g')
                  | (Inr (osh, ovs), g') \<Rightarrow> (Inr (makeTensor osh ovs e), m, g'))
               else (Inl ShapeMismatch, m, g)))"

section \<open>The page and its state\<close>

text \<open>
  The result object that \<^verbatim>\<open>analyzeECG\<close> stores and the page renders.
\<close>

record ecg_features =
  stElevation :: bool
  qWaveChanges :: bool
  tWaveInversion :: bool
  heartRate :: int

record analysis =
  stemiDetected :: bool
  confidence :: real
  stemiProbability :: real
  noStemiProbability :: real
  features :: ecg_features
  recommendation :: string

text \<open>
  The state of \<^verbatim>\<open>Home\<close>: its five \<^verbatim>\<open>useState\<close> cells, and what the page acts on
  outside itself: the library's tensor registry, the console and the alerts shown to the
  user.
\<close>

record app =
  model :: "layersModel option"
  imagePreview :: "string option"
  prediction :: "analysis option"
  loading :: bool
  modelLoading :: bool
  tf :: engine
  console :: "string list"
  alerts :: "string list"

definition initial :: app where
  "initial =
     \<lparr>model = None, imagePreview = None, prediction = None, loading = False,
      modelLoading = True, tf = \<lparr>live = [], nextId = 0\<rparr>, console = [], alerts = []\<rparr>"

text \<open>
  What the surroundings decide when the model is built: whether the numeric backend
  throws, and the initial weights.
\<close>

record model_env =
  backendFails :: bool
  initKernel :: "nat \<Rightarrow> nat \<Rightarrow> real"
  initBias :: "nat \<Rightarrow> nat \<Rightarrow> real"

definition loadModel :: "model_env \<Rightarrow> app \<Rightarrow> app" where
  "loadModel env s =
     (let s1 = s\<lparr>modelLoading := True\<rparr> in
      if backendFails env
      then s1\<lparr>console := console s1 @ [''Error loading model:''], modelLoading := False\<rparr>
      else s1\<lparr>model := Some (buildModel (initKernel env) (initBias env)),
              modelLoading := False\<rparr>)"

text \<open>
  \<^verbatim>\<open>handleImageUpload\<close>: the argument is the data URL the file reader produced, if a
  file was chosen and read.
\<close>

definition handleImageUpload :: "string option \<Rightarrow> app \<Rightarrow> app" where
  "handleImageUpload file s =
     (case file of
        None \<Rightarrow> s
      | Some url \<Rightarrow> s\<lparr>imagePreview := Some url, prediction := None\<rparr>)"

text \<open>
  What the surroundings decide during one analysis: how the browser decodes the data
  URL (\<open>None\<close>: the image never loads), whether the backend throws in
  \<^verbatim>\<open>model.predict\<close> or rejects \<^verbatim>\<open>predictions.data()\<close>, and the random source
  \<^verbatim>\<open>Math.random\<close> as it stands when the analysis starts.
\<close>

record analysis_env =
  decode :: "string \<Rightarrow> image option"
  predictThrows :: bool
  dataRejects :: bool
  random :: rng

text \<open>The \<^verbatim>\<open>catch\<close> block of \<^verbatim>\<open>analyzeECG\<close>, followed by its \<^verbatim>\<open>finally\<close>.\<close>

definition analyzeECG_catch :: "app \<Rightarrow> app" where
  "analyzeECG_catch s =
     s\<lparr>console := console s @ [''Error analyzing ECG:''],
       alerts := alerts s @ [''Error analyzing ECG image. Please try again.''],
       loading := False\<rparr>"

text \<open>
  \<^verbatim>\<open>analyzeECG\<close>. Its guard \<^verbatim>\<open>!imagePreview || !model\<close> also holds for the empty
  string. The awaited steps run one after the other and one analysis is one step here.
  The model cell refers to the model object, so after \<^verbatim>\<open>model.predict\<close> it holds the
  object as the call left it; the four calls of \<^verbatim>\<open>Math.random\<close> draw from the source
  as the call left it.
\<close>

definition analyzeECG :: "analysis_env \<Rightarrow> app \<Rightarrow> app" where
  "analyzeECG env s =
     (case (imagePreview s, model s) of
        (Some src, Some m) \<Rightarrow>
          if src = [] then s else
          (let s1 = s\<lparr>loading := True\<rparr> in
           case decode env src of
             None \<Rightarrow> s1
           | Some img \<Rightarrow>
               (case preprocessImage img (tf s1) of
                  (None, e1) \<Rightarrow> s1\<lparr>tf := e1\<rparr>
                | (Some imageTensor, e1) \<Rightarrow>
                    (case (if predictThrows env then (Inl BackendError, m, random env)
                           else predict m imageTensor (random env) e1) of
                       (Inl err, m', g) \<Rightarrow>
                         analyzeECG_catch (s1\<lparr>model := Some m', tf := e1\<rparr>)
                     | (Inr (predictions, e2), m', g) \<Rightarrow>
                         if dataRejects env
                         then analyzeECG_catch (s1\<lparr>model := Some m', tf := e2\<rparr>)
                         else
                           (let predArray = vals predictions;
                                p1 = predArray ! 1;
                                p0 = predArray ! 0;
                                fs = \<lparr>stElevation = (g 0 > 0.5),
                                      qWaveChanges = (g 1 > 0.6),
                                      tWaveInversion = (g 2 > 0.7),
                                      heartRate = \<lfloor>g 3 * 60\<rfloor> + 60\<rparr>;
                                result =
                                  \<lparr>stemiDetected = (p1 > 0.5),
                                   confidence = max p1 p0 * 100,
                                   stemiProbability = p1 * 100,
                                   noStemiProbability = p0 * 100,
                                   features = fs,
                                   recommendation =
                                     (if p1 > 0.5
                                      then ''URGENT: Possible STEMI detected. Immediate medical attention required. Activate catheterization lab.''
                                      else ''No STEMI detected. Continue monitoring and clinical assessment.'')\<rparr>;
                                s2 = s1\<lparr>model := Some m', prediction := Some result\<rparr>;
                                e3 = dispose imageTensor e2;
                                e4 = dispose predictions e3
                            in s2\<lparr>tf := e4, loading := False\<rparr>))))
      | _ \<Rightarrow> s)"

text \<open>
  The two buttons. The upload button is disabled while the model loads; the analysis
  button is rendered once an image is chosen and disabled during an analysis and
  without a model.
\<close>

definition uploadEnabled :: "app \<Rightarrow> bool" where
  "uploadEnabled s = (\<not> modelLoading s)"

definition truthy :: "string option \<Rightarrow> bool" where
  "truthy v = (case v of None \<Rightarrow> False | Some str \<Rightarrow> str \<noteq> [])"

definition analyzeEnabled :: "app \<Rightarrow> bool" where
  "analyzeEnabled s = (truthy (imagePreview s) \<and> \<not> loading s \<and> model s \<noteq> None)"

datatype event = ChooseFile "string option" | ClickAnalyze analysis_env

fun handle :: "event \<Rightarrow> app \<Rightarrow> app" where
  "handle (ChooseFile file) s = (if uploadEnabled s then handleImageUpload file s else s)"
| "handle (ClickAnalyze env) s = (if analyzeEnabled s then analyzeECG env s else s)"

text \<open>
  The effect of \<^verbatim>\<open>Home\<close>, \<^verbatim>\<open>useEffect(() => { loadModel(); }, [])\<close>. Its dependency
  list is empty, so it runs after the first render (render 0) and after no later one.
  The argument \<open>env\<close> is what the surroundings would decide if the model were built
  after this render: every build draws weights of its own.
\<close>

definition afterRender :: "nat \<Rightarrow> model_env \<Rightarrow> app \<Rightarrow> app" where
  "afterRender n env s = (if n = 0 then loadModel env s else s)"

text \<open>
  The life of the page: the first render and its effect, then the user's events, each
  handled and followed by a new render.
\<close>

fun renders :: "nat \<Rightarrow> (nat \<Rightarrow> model_env) \<Rightarrow> event list \<Rightarrow> app \<Rightarrow> app" where
  "renders n menvs [] s = s"
| "renders n menvs (ev # evs) s =
     renders (Suc n) menvs evs (afterRender (Suc n) (menvs (Suc n)) (handle ev s))"

definition lifecycle :: "(nat \<Rightarrow> model_env) \<Rightarrow> event list \<Rightarrow> app" where
  "lifecycle menvs evs = renders 0 menvs evs (afterRender 0 (menvs 0) initial)"

text \<open>A session in surroundings that stay the same from render to render.\<close>

definition session :: "model_env \<Rightarrow> event list \<Rightarrow> app" where
  "session menv evs = lifecycle (\<lambda>n. menv) evs"

section \<open>The architecture as the specification lists it\<close>

datatype arch_layer =
    ArchConv2D nat nat nat activation
  | ArchMaxPool2D nat nat
  | ArchFlatten
  | ArchDropout real
  | ArchDense nat activation

datatype arch_loss = CategoricalCrossEntropy

datatype arch_metric = Accuracy

text \<open>
  How the library reads a layer's arguments: a single \<^verbatim>\<open>kernelSize\<close> or
  \<^verbatim>\<open>poolSize\<close> stands for a square, and losses and metrics are looked up by name.
\<close>

fun describe_layer :: "layer \<Rightarrow> arch_layer" where
  "describe_layer (Conv2d ish k f act) = ArchConv2D f k k act"
| "describe_layer (MaxPooling2d p) = ArchMaxPool2D p p"
| "describe_layer Flatten = ArchFlatten"
| "describe_layer (Dropout rate) = ArchDropout rate"
| "describe_layer (Dense units act) = ArchDense units act"

definition lossByName :: "string \<Rightarrow> arch_loss option" where
  "lossByName name = (if name = ''categoricalCrossentropy'' then Some CategoricalCrossEntropy else None)"

definition metricByName :: "string \<Rightarrow> arch_metric option" where
  "metricByName name = (if name = ''accuracy'' then Some Accuracy else None)"

text \<open>The eleven layers of the specification's section 4.1, in its words.\<close>

definition spec_architecture :: "arch_layer list" where
  "spec_architecture =
     [ArchConv2D 32 3 3 Relu,
      ArchMaxPool2D 2 2,
      ArchConv2D 64 3 3 Relu,
      ArchMaxPool2D 2 2,
      ArchConv2D 128 3 3 Relu,
      ArchMaxPool2D 2 2,
      ArchFlatten,
      ArchDropout (5 / 10),
      ArchDense 128 Relu,
      ArchDropout (3 / 10),
      ArchDense 2 Softmax]"

section \<open>Preprocessing: shape, range and the resize\<close>

lemma length_concat_map_const:
  "(\<And>i. i < n \<Longrightarrow> length (f i) = k) \<Longrightarrow> length (concat (map f [0..<n])) = n * k"
  by (induction n) simp_all

lemma nth_concat_map_const:
  assumes "\<And>i. i < n \<Longrightarrow> length (f i) = k" and "i < n" and "j < k"
  shows "concat (map f [0..<n]) ! (i * k + j) = f i ! j"
  using assms
proof (induction n)
  case 0
  then show ?case by simp
next
  case (Suc n)
  have len: "length (concat (map f [0..<n])) = n * k"
    using Suc.prems(1) by (simp add: length_concat_map_const)
  show ?case
  proof (cases "i < n")
    case True
    then have "(i + 1) * k \<le> n * k" by (intro mult_le_mono1) simp
    with \<open>j < k\<close> have "i * k + j < n * k" by simp
    moreover have "concat (map f [0..<n]) ! (i * k + j) = f i ! j"
      using Suc.IH Suc.prems(1) True \<open>j < k\<close> by simp
    ultimately show ?thesis by (simp add: nth_append len)
  next
    case False
    with Suc.prems(2) have "i = n" by simp
    then show ?thesis by (simp add: nth_append len)
  qed
qed

lemma sourceNearest_less:
  assumes "0 < old" shows "sourceNearest old new i < old"
proof -
  have "sourceNearest old new i \<le> old - 1" by (simp add: sourceNearest_def)
  with assms show ?thesis by simp
qed

lemma pixel_index_less:
  assumes "a < (h::nat)" and "b < w"
  shows "a * w + b < w * h"
proof -
  have "a * w + b < (a + 1) * w" using assms(2) by simp
  also have "\<dots> \<le> h * w" using assms(1) by (intro mult_le_mono1) simp
  finally show ?thesis by (simp add: mult.commute)
qed

lemma fromPixels_vals_nth:
  assumes "i < n" and "c < 3"
  shows "concat (map (\<lambda>i. map (\<lambda>c. int (unat (d ! (i * 4 + c)))) [0..<3]) [0..<n]) ! (i * 3 + c)
         = int (unat ((d :: 8 word list) ! (i * 4 + c)))"
  using assms by (subst nth_concat_map_const [where k = 3]) simp_all

lemma preprocessImage_valid:
  assumes "valid_image img"
  shows "preprocessImage img e =
    (Some \<lparr>tid = nextId e + 4, shape = [1, 224, 224, 3],
           vals = map (\<lambda>v. v / 255) (map real_of_int
             (concat (map (\<lambda>r. concat (map (\<lambda>c. map (\<lambda>d.
                concat (map (\<lambda>i. map (\<lambda>c. int (unat (data img ! (i * 4 + c)))) [0..<3])
                  [0..<width img * height img])
                ! ((sourceNearest (height img) 224 r * width img
                      + sourceNearest (width img) 224 c) * 3 + d))
              [0..<3]) [0..<224])) [0..<224])))\<rparr>,
     e\<lparr>live := [nextId e + 4, nextId e + 3, nextId e + 2, nextId e + 1, nextId e] @ live e,
       nextId := nextId e + 5\<rparr>)"
  using assms
  by (simp add: preprocessImage_def fromPixels_def valid_image_def makeTensor_def
      resizeNearestNeighbor_def toFloat_def tensor_div_def expandDims_def
      del: mult_Suc_right add_mult_distrib add_mult_distrib2)


lemma resized_vals_nth:
  assumes "r < 224" and "c < 224" and "ch < (3::nat)"
  shows "concat (map (\<lambda>r. concat (map (\<lambda>c. map (\<lambda>d. g r c d) [0..<3]) [0..<224])) [0..<224])
           ! ((r * 224 + c) * 3 + ch) = g r c ch"
proof -
  let ?row = "\<lambda>r. concat (map (\<lambda>c. map (\<lambda>d. g r c d) [0..<3]) [0..<224])"
  have len: "\<And>r. length (?row r) = 672"
    by (subst length_concat_map_const [where k = 3]) simp_all
  have idx: "(r * 224 + c) * 3 + ch = r * 672 + (c * 3 + ch)" by simp
  have "c * 3 + ch < 672" using assms by simp
  then have "concat (map ?row [0..<224]) ! (r * 672 + (c * 3 + ch)) = ?row r ! (c * 3 + ch)"
    using assms(1) len by (intro nth_concat_map_const) simp_all
  also have "\<dots> = map (\<lambda>d. g r c d) [0..<3] ! ch"
    using assms by (intro nth_concat_map_const) simp_all
  also have "\<dots> = g r c ch" using assms(3) by simp
  finally show ?thesis by (simp only: idx)
qed

lemma resized_vals_length:
  "length (concat (map (\<lambda>r. concat (map (\<lambda>c. map (\<lambda>d. g r c d) [0..<3]) [0..<224])) [0..<224]))
     = 150528"
proof -
  have "\<And>r. length (concat (map (\<lambda>c. map (\<lambda>d. g r c d) [0..<3]) [0..<224])) = 224 * 3"
    by (intro length_concat_map_const) simp
  then show ?thesis
    by (subst length_concat_map_const [where k = 672]) simp_all
qed

lemma resized_vals_set:
  assumes "v \<in> set (concat (map (\<lambda>r. concat (map (\<lambda>c. map (\<lambda>d. g r c d) [0..<3]) [0..<224])) [0..<224]))"
  shows "\<exists>r<224. \<exists>c<224. \<exists>d<3. v = g r c (d::nat)"
  using assms by fastforce

lemma preprocessImage_result:
  assumes "valid_image img"
  shows "\<exists>t. preprocessImage img e =
             (Some t, e\<lparr>live := [nextId e + 4, nextId e + 3, nextId e + 2, nextId e + 1,
                                 nextId e] @ live e,
                        nextId := nextId e + 5\<rparr>) \<and>
           tid t = nextId e + 4 \<and>
           shape t = [1, 224, 224, 3] \<and>
           length (vals t) = 150528 \<and>
           (\<forall>v \<in> set (vals t). \<exists>p d. p < width img * height img \<and> d < 3 \<and>
              v = real (unat (data img ! (p * 4 + d))) / 255) \<and>
           (\<forall>r<224. \<forall>c<224. \<forall>ch<3.
              vals t ! ((r * 224 + c) * 3 + ch) =
                real (unat (data img ! ((sourceNearest (height img) 224 r * width img
                                          + sourceNearest (width img) 224 c) * 4 + ch))) / 255)"
proof -
  let ?w = "width img" and ?h = "height img"
  let ?fp = "concat (map (\<lambda>i. map (\<lambda>c. int (unat (data img ! (i * 4 + c)))) [0..<3])
                  [0..<?w * ?h])"
  let ?g = "\<lambda>r c d. ?fp ! ((sourceNearest ?h 224 r * ?w + sourceNearest ?w 224 c) * 3 + d)"
  let ?rs = "concat (map (\<lambda>r. concat (map (\<lambda>c. map (\<lambda>d. ?g r c d) [0..<3]) [0..<224])) [0..<224])"
  let ?t = "\<lparr>tid = nextId e + 4, shape = [1, 224, 224, 3],
             vals = map (\<lambda>v. v / 255) (map real_of_int ?rs)\<rparr>"
  from assms have pos: "0 < ?w" "0 < ?h" by (simp_all add: valid_image_def)
  have inside: "sourceNearest ?h 224 r * ?w + sourceNearest ?w 224 c < ?w * ?h" for r c
    using pos by (intro pixel_index_less sourceNearest_less)
  have g_eq: "?g r c d = int (unat (data img ! ((sourceNearest ?h 224 r * ?w
                 + sourceNearest ?w 224 c) * 4 + d)))" if "d < 3" for r c d
    using inside that by (rule fromPixels_vals_nth)
  have pre: "preprocessImage img e = (Some ?t,
      e\<lparr>live := [nextId e + 4, nextId e + 3, nextId e + 2, nextId e + 1, nextId e] @ live e,
        nextId := nextId e + 5\<rparr>)"
    using assms by (rule preprocessImage_valid)
  have len: "length (vals ?t) = 150528"
    by (simp only: tensor.simps length_map resized_vals_length)
  have from_pixel: "\<exists>p d. p < ?w * ?h \<and> d < 3 \<and> v = real (unat (data img ! (p * 4 + d))) / 255"
    if "v \<in> set (vals ?t)" for v
  proof -
    have "vals ?t = map (\<lambda>u. real_of_int u / 255) ?rs"
      by (simp only: tensor.simps map_map o_def)
    with that have "v \<in> (\<lambda>u. real_of_int u / 255) ` set ?rs"
      by (simp only: set_map)
    then obtain u where u: "u \<in> set ?rs" and v: "v = real_of_int u / 255" by blast
    from resized_vals_set [OF u] obtain r c d where d: "d < 3" and "u = ?g r c d" by blast
    with g_eq have "u = int (unat (data img ! ((sourceNearest ?h 224 r * ?w
                 + sourceNearest ?w 224 c) * 4 + d)))" by simp
    then have "v = real (unat (data img ! ((sourceNearest ?h 224 r * ?w
                 + sourceNearest ?w 224 c) * 4 + d))) / 255"
      by (simp only: v of_int_of_nat_eq)
    with inside d show ?thesis by blast
  qed
  have nth: "vals ?t ! ((r * 224 + c) * 3 + ch) =
      real (unat (data img ! ((sourceNearest ?h 224 r * ?w + sourceNearest ?w 224 c) * 4
                                + ch))) / 255"
    if "r < 224" "c < 224" "ch < 3" for r c ch
  proof -
    have "(r * 224 + c) * 3 + ch < 150528" using that by simp
    then have "vals ?t ! ((r * 224 + c) * 3 + ch) = real_of_int (?rs ! ((r * 224 + c) * 3 + ch)) / 255"
      by (simp only: tensor.simps nth_map length_map resized_vals_length)
    also have "?rs ! ((r * 224 + c) * 3 + ch) = ?g r c ch"
      using that by (rule resized_vals_nth)
    also have "\<dots> = int (unat (data img ! ((sourceNearest ?h 224 r * ?w
                 + sourceNearest ?w 224 c) * 4 + ch)))"
      using that(3) by (rule g_eq)
    finally show ?thesis by simp
  qed
  show ?thesis
    using pre len from_pixel nth by (intro exI [of _ ?t] conjI ballI allI impI) simp_all
qed

subsection \<open>The binary64 index of the resize\<close>

lemma bits_bounds:
  "0 < n \<Longrightarrow> 2 ^ (bits n - 1) \<le> n \<and> n < 2 ^ bits n"
proof (induction n rule: bits.induct)
  case (1 n)
  show ?case
  proof (cases "n div 2 = 0")
    case True
    with "1.prems" have "n = 1" by (simp add: div_eq_0_iff)
    then show ?thesis by (simp add: bits.simps)
  next
    case False
    with "1.IH" "1.prems" have ih: "2 ^ (bits (n div 2) - 1) \<le> n div 2" "n div 2 < 2 ^ bits (n div 2)"
      by simp_all
    from False have bpos: "0 < bits (n div 2)" by (subst bits.simps) simp
    have b: "bits n = Suc (bits (n div 2))" using "1.prems" by (subst bits.simps) simp
    have "(2::nat) ^ (bits n - 1) = 2 * 2 ^ (bits (n div 2) - 1)"
      using bpos by (simp add: b power_Suc [symmetric] del: power_Suc)
    also have "\<dots> \<le> 2 * (n div 2)" using ih(1) by simp
    also have "\<dots> \<le> n" by simp
    finally have lo: "2 ^ (bits n - 1) \<le> n" .
    have "n < 2 * (n div 2) + 2" by presburger
    also have "\<dots> \<le> 2 * 2 ^ bits (n div 2)" using ih(2) by simp
    finally have "n < 2 ^ bits n" by (simp add: b)
    with lo show ?thesis by simp
  qed
qed

lemma roundHalfEven_error:
  assumes "0 < d"
  shows "\<bar>real (roundHalfEven n d) - real n / real d\<bar> \<le> 1 / 2"
proof -
  define q where "q = n div d"
  define r where "r = n mod d"
  have n: "n = q * d + r" and r: "r < d" using assms by (simp_all add: q_def r_def)
  have x: "real n / real d = real q + real r / real d"
    using assms by (simp add: n field_simps)
  show ?thesis
  proof (cases "d < 2 * r \<or> (2 * r = d \<and> odd q)")
    case True
    then have up: "roundHalfEven n d = q + 1" by (simp add: roundHalfEven_def q_def r_def Let_def)
    from True have "d \<le> 2 * r" by auto
    then have "real d \<le> real (2 * r)" by (rule of_nat_mono)
    then have "real d \<le> 2 * real r" by simp
    then have "1 / 2 \<le> real r / real d" using assms by (simp add: field_simps)
    moreover have "real r / real d < 1" using r assms by simp
    ultimately show ?thesis by (simp add: up x)
  next
    case False
    then have dn: "roundHalfEven n d = q" by (simp add: roundHalfEven_def q_def r_def Let_def)
    from False have "2 * r \<le> d" by auto
    then have "real (2 * r) \<le> real d" by (rule of_nat_mono)
    then have "2 * real r \<le> real d" by simp
    then have "real r / real d \<le> 1 / 2" using assms by (simp add: field_simps)
    then show ?thesis by (simp add: dn x)
  qed
qed


lemma two_powr_nat: "2 powr real (k::nat) = (2::real) ^ k"
  by (simp add: powr_realpow)

lemma float64_quot_error:
  assumes "0 < n" and "0 < d" and "float64_quot n d = (m, e)"
  shows "\<bar>real m * 2 powr real_of_int e - real n / real d\<bar> \<le> real n / real d / 2 ^ 53"
proof -
  define l where "l = (if d * 2 ^ bits n \<le> n * 2 ^ bits d
                  then int (bits n) - int (bits d)
                  else int (bits n) - int (bits d) - 1)"
  define x where "x = real n / real d"
  have e: "e = l - 52"
    and m: "m = (if 0 \<le> e then roundHalfEven n (d * 2 ^ nat e)
                 else roundHalfEven (n * 2 ^ nat (- e)) d)"
    using assms by (auto simp add: float64_quot_def l_def Let_def)
  have xpos: "0 < x" using assms by (simp add: x_def)
  from bits_bounds [OF assms(1)] have bn: "2 ^ (bits n - 1) \<le> n" "n < 2 ^ bits n" by simp_all
  from bits_bounds [OF assms(2)] have bd: "2 ^ (bits d - 1) \<le> d" "d < 2 ^ bits d" by simp_all
  have bnpos: "0 < bits n" using assms(1) by (subst bits.simps) simp
  have low: "2 powr real_of_int l \<le> x"
  proof (cases "d * 2 ^ bits n \<le> n * 2 ^ bits d")
    case True
    then have "real (d * 2 ^ bits n) \<le> real (n * 2 ^ bits d)" by (rule of_nat_mono)
    then have "real d * 2 ^ bits n \<le> real n * 2 ^ bits d" by simp
    then have "(2::real) ^ bits n / 2 ^ bits d \<le> x"
      using assms(2) by (simp add: x_def field_simps)
    moreover have "2 powr real_of_int l = (2::real) ^ bits n / 2 ^ bits d"
      using True by (simp add: l_def powr_diff two_powr_nat)
    ultimately show ?thesis by simp
  next
    case False
    have "real (2 ^ (bits n - 1)) \<le> real n" using bn(1) by (rule of_nat_mono)
    then have n1: "(2::real) ^ (bits n - 1) \<le> real n" by simp
    have "real d \<le> real (2 ^ bits d)" using bd(2) by (intro of_nat_mono) simp
    then have d1: "real d \<le> 2 ^ bits d" by simp
    have "(2::real) ^ (bits n - 1) / 2 ^ bits d \<le> real n / 2 ^ bits d"
      using n1 by (simp add: divide_right_mono)
    also have "\<dots> \<le> real n / real d"
      using d1 assms by (intro divide_left_mono) simp_all
    finally have "(2::real) ^ (bits n - 1) / 2 ^ bits d \<le> x" by (simp add: x_def)
    moreover have "real_of_int l = real (bits n - 1) - real (bits d)"
      using False bnpos by (simp add: l_def of_nat_diff)
    then have "2 powr real_of_int l = (2::real) ^ (bits n - 1) / 2 ^ bits d"
      by (simp add: powr_diff two_powr_nat)
    ultimately show ?thesis by simp
  qed
  define P where "P = 2 powr real_of_int e"
  have Ppos: "0 < P" by (simp add: P_def)
  have round: "\<bar>real m - x / P\<bar> \<le> 1 / 2"
  proof (cases "0 \<le> e")
    case True
    then have "real_of_int e = real (nat e)" by simp
    then have P: "P = 2 ^ nat e" unfolding P_def by (simp only: two_powr_nat)
    have "\<bar>real (roundHalfEven n (d * 2 ^ nat e)) - real n / real (d * 2 ^ nat e)\<bar> \<le> 1 / 2"
      using assms(2) by (intro roundHalfEven_error) simp
    moreover have "real n / real (d * 2 ^ nat e) = x / P"
      by (simp add: x_def P)
    ultimately show ?thesis using True by (simp add: m)
  next
    case False
    then have "real_of_int e = - real (nat (- e))" by simp
    then have P: "P = 1 / 2 ^ nat (- e)"
      unfolding P_def by (simp only: powr_minus two_powr_nat inverse_eq_divide)
    have "\<bar>real (roundHalfEven (n * 2 ^ nat (- e)) d) - real (n * 2 ^ nat (- e)) / real d\<bar> \<le> 1 / 2"
      using assms(2) by (intro roundHalfEven_error)
    moreover have "real (n * 2 ^ nat (- e)) / real d = x / P"
      by (simp add: x_def P)
    ultimately show ?thesis using False by (simp add: m)
  qed
  have "real m * P - x = (real m - x / P) * P"
    using Ppos by (simp add: field_simps)
  then have "\<bar>real m * P - x\<bar> = \<bar>real m - x / P\<bar> * P"
    using Ppos by (simp add: abs_mult)
  also have "\<dots> \<le> 1 / 2 * P" using round Ppos by (intro mult_right_mono) simp_all
  also have "1 / 2 * P = 2 powr real_of_int l / 2 ^ 53"
  proof -
    have "real_of_int e = real_of_int l - 52" by (simp add: e)
    then have "P = 2 powr real_of_int l / 2 powr 52" unfolding P_def by (simp add: powr_diff)
    also have "(2::real) powr 52 = 2 ^ 52" using two_powr_nat [of 52] by simp
    finally show ?thesis by simp
  qed
  also have "\<dots> \<le> x / 2 ^ 53" using low by (simp add: divide_right_mono)
  finally show ?thesis by (simp add: P_def x_def)
qed


lemma float64_times_error:
  assumes "0 < m" and "0 < i" and "float64_times (m, e) i = (m', e')"
  shows "\<bar>real m' * 2 powr real_of_int e' - real m * 2 powr real_of_int e * real i\<bar>
           \<le> real m * 2 powr real_of_int e * real i / 2 ^ 53"
proof -
  obtain m1 e1 where q: "float64_quot (m * i) 1 = (m1, e1)" by (cases "float64_quot (m * i) 1")
  with assms(3) have m': "m' = m1" and e': "e' = e + e1"
    by (simp_all add: float64_times_def)
  define P where "P = 2 powr real_of_int e"
  have Ppos: "0 < P" by (simp add: P_def)
  from assms(1,2) have "0 < m * i" by simp
  from float64_quot_error [OF this _ q]
  have err: "\<bar>real m1 * 2 powr real_of_int e1 - real (m * i)\<bar> \<le> real (m * i) / 2 ^ 53"
    by simp
  have "real m' * 2 powr real_of_int e' - real m * P * real i
          = (real m1 * 2 powr real_of_int e1 - real (m * i)) * P"
    by (simp add: m' e' P_def powr_add algebra_simps)
  then have "\<bar>real m' * 2 powr real_of_int e' - real m * P * real i\<bar>
          = \<bar>real m1 * 2 powr real_of_int e1 - real (m * i)\<bar> * P"
    using Ppos by (simp add: abs_mult)
  also have "\<dots> \<le> real (m * i) / 2 ^ 53 * P"
    using err Ppos by (intro mult_right_mono) simp_all
  finally show ?thesis by (simp add: P_def algebra_simps)
qed

lemma float64_floor_eq:
  "float64_floor (m, e) = nat \<lfloor>real m * 2 powr real_of_int e\<rfloor>"
proof (cases "0 \<le> e")
  case True
  then have "real_of_int e = real (nat e)" by simp
  then have "2 powr real_of_int e = (2::real) ^ nat e" by (simp only: two_powr_nat)
  then have "real m * 2 powr real_of_int e = real (m * 2 ^ nat e)" by simp
  then have "\<lfloor>real m * 2 powr real_of_int e\<rfloor> = int (m * 2 ^ nat e)"
    by (simp only: floor_of_nat)
  then have "nat \<lfloor>real m * 2 powr real_of_int e\<rfloor> = m * 2 ^ nat e"
    by (simp only: nat_int)
  with True show ?thesis by (simp add: float64_floor_def)
next
  case False
  then have "real_of_int e = - real (nat (- e))" by simp
  then have "2 powr real_of_int e = 1 / (2::real) ^ nat (- e)"
    by (simp only: powr_minus two_powr_nat inverse_eq_divide)
  then have "real m * 2 powr real_of_int e = real m / real (2 ^ nat (- e))" by simp
  then have "\<lfloor>real m * 2 powr real_of_int e\<rfloor> = int (m div 2 ^ nat (- e))"
    by (simp only: floor_divide_of_nat_eq)
  then have "nat \<lfloor>real m * 2 powr real_of_int e\<rfloor> = m div 2 ^ nat (- e)"
    by (simp only: nat_int)
  with False show ?thesis by (simp add: float64_floor_def)
qed


text \<open>
  How far the binary64 index is from the exact one: both roundings have a relative error
  of at most \<open>2 ^ -53\<close>, so the index is the floor of the exact quotient
  \<open>i * oldSize / newSize\<close>, or one below it, and one below only where the quotient is an
  integer.
\<close>

lemma sourceNearest_exact_or_below:
  assumes "0 < old" and "i < new" and "old * new < 2 ^ 50"
  shows "sourceNearest old new i = i * old div new \<or>
         (new dvd i * old \<and> sourceNearest old new i + 1 = i * old div new)"
proof (cases "i = 0")
  case True
  obtain m e where q: "float64_quot old new = (m, e)" by (cases "float64_quot old new")
  have "float64_quot 0 1 = (0, 0)" by (simp add: float64_quot_def)
  then have "float64_floor (float64_times (m, e) 0) = 0"
    by (simp add: float64_times_def float64_floor_def)
  with True q show ?thesis by (simp add: sourceNearest_def)
next
  case False
  then have ipos: "0 < i" by simp
  with assms(2) have newpos: "0 < new" by simp
  obtain m e where q: "float64_quot old new = (m, e)" by (cases "float64_quot old new")
  obtain m' e' where t: "float64_times (m, e) i = (m', e')"
    by (cases "float64_times (m, e) i")
  define \<delta> :: real where "\<delta> = 1 / 2 ^ 53"
  define x where "x = real old / real new"
  define X where "X = real m * 2 powr real_of_int e"
  define Y where "Y = real m' * 2 powr real_of_int e'"
  define v where "v = x * real i"
  define w where "w = v * \<delta>"
  define k where "k = i * old div new"
  define f where "f = i * old mod new"
  have \<delta>: "0 < \<delta>" "\<delta> \<le> 1" by (simp_all add: \<delta>_def)
  have xpos: "0 < x" using assms(1) newpos by (simp add: x_def)
  have vpos: "0 < v" using xpos ipos by (simp add: v_def)
  have wpos: "0 < w" using vpos \<delta>(1) by (simp add: w_def)
  from float64_quot_error [OF assms(1) newpos q]
  have X: "\<bar>X - x\<bar> \<le> x * \<delta>" by (simp add: X_def x_def \<delta>_def)
  have "x * \<delta> < x" using xpos by (simp add: \<delta>_def)
  with X have Xpos: "0 < X" by linarith
  then have mpos: "0 < m" by (cases "m = 0") (simp_all add: X_def)
  from float64_times_error [OF mpos ipos t]
  have Y: "\<bar>Y - X * real i\<bar> \<le> X * real i * \<delta>" by (simp add: X_def Y_def \<delta>_def)
  have Xi: "\<bar>X * real i - v\<bar> \<le> w"
  proof -
    have "X * real i - v = (X - x) * real i" by (simp add: v_def algebra_simps)
    then have "\<bar>X * real i - v\<bar> = \<bar>X - x\<bar> * real i" by (simp add: abs_mult)
    also have "\<dots> \<le> x * \<delta> * real i" using X by (intro mult_right_mono) simp_all
    finally show ?thesis by (simp add: w_def v_def algebra_simps)
  qed
  have Xi_up: "X * real i * \<delta> \<le> 2 * w"
  proof -
    have "X * real i \<le> v + w" using Xi by linarith
    also have "w \<le> v" using vpos \<delta> by (simp add: w_def mult_left_le)
    finally have "X * real i \<le> 2 * v" by simp
    then have "X * real i * \<delta> \<le> 2 * v * \<delta>" using \<delta>(1) by (intro mult_right_mono) simp_all
    then show ?thesis by (simp add: w_def)
  qed
  have up: "Y \<le> v + 3 * w" and lo: "v - 3 * w \<le> Y"
    using Y Xi Xi_up by linarith+
  have vold: "v < real old"
  proof -
    have "real i < real new" using assms(2) by simp
    then have "real old * real i < real old * real new"
      using assms(1) by (intro mult_strict_left_mono) simp_all
    then show ?thesis using newpos by (simp add: v_def x_def field_simps)
  qed
  have on: "real old * real new < 2 ^ 50"
  proof -
    have "real (old * new) < real (2 ^ 50)" using assms(3) by (simp only: of_nat_less_iff)
    then show ?thesis by simp
  qed
  have w3: "3 * w < 1 / real new"
  proof -
    have "w < real old * \<delta>" using vold \<delta>(1) by (simp add: w_def)
    moreover have "3 * (real old * \<delta>) \<le> 1 / real new"
    proof -
      have "3 * (real old * real new) \<le> 2 ^ 53" using on by simp
      then show ?thesis using newpos by (simp add: \<delta>_def field_simps)
    qed
    ultimately show ?thesis by linarith
  qed
  have fnew: "f < new" using newpos by (simp add: f_def)
  have kold: "k < old"
  proof -
    have "i * old < new * old" using assms(1,2) by simp
    then show ?thesis by (simp add: k_def less_mult_imp_div_less mult.commute)
  qed
  have v: "v = real k + real f / real new"
  proof -
    have "i * old = k * new + f" by (simp add: k_def f_def)
    then have "real (i * old) = real (k * new + f)" by (rule arg_cong)
    then have "real old * real i = real k * real new + real f" by (simp add: mult.commute)
    then show ?thesis using newpos by (simp add: v_def x_def field_simps)
  qed
  have f1: "(real f + 1) / real new \<le> 1"
  proof -
    have "real (f + 1) \<le> real new" using fnew by (intro of_nat_mono) simp
    then show ?thesis using newpos by simp
  qed
  have Y0: "0 \<le> Y" by (simp add: Y_def)
  have upper: "Y < real k + 1"
  proof -
    have "Y < v + 1 / real new" using up w3 by linarith
    also have "\<dots> = real k + (real f + 1) / real new" by (simp add: v add_divide_distrib)
    also have "\<dots> \<le> real k + 1" using f1 by simp
    finally show ?thesis .
  qed
  have F: "float64_floor (float64_times (float64_quot old new) i) = nat \<lfloor>Y\<rfloor>"
    by (simp add: q t float64_floor_eq Y_def)
  have Fle: "\<lfloor>Y\<rfloor> \<le> int k"
  proof -
    have "Y < of_int (int k + 1)" using upper by simp
    then have "\<lfloor>Y\<rfloor> < int k + 1" by (simp only: floor_less_iff)
    then show ?thesis by simp
  qed
  have F0: "0 \<le> \<lfloor>Y\<rfloor>" using Y0 by simp
  have Fk: "nat \<lfloor>Y\<rfloor> \<le> k" using Fle by simp
  have minF: "sourceNearest old new i = nat \<lfloor>Y\<rfloor>"
    using Fk kold by (simp add: sourceNearest_def F)
  show ?thesis
  proof (cases "f = 0")
    case True
    then have dvd: "new dvd i * old" by (simp add: f_def dvd_eq_mod_eq_0)
    have "real k - 1 < Y"
    proof -
      have "1 / real new \<le> 1" using newpos by simp
      with lo w3 True v show ?thesis by simp
    qed
    then have "of_int (int k - 1) < Y" by simp
    then have "int k - 1 \<le> \<lfloor>Y\<rfloor>" by (simp only: le_floor_iff less_imp_le)
    with Fle F0 have "nat \<lfloor>Y\<rfloor> = k \<or> nat \<lfloor>Y\<rfloor> + 1 = k" by linarith
    with dvd show ?thesis by (simp add: minF k_def)
  next
    case False
    then have "1 \<le> real f" by simp
    then have "1 / real new \<le> real f / real new" using newpos by (simp add: divide_right_mono)
    with lo w3 v have "real k \<le> Y" by linarith
    then have "of_int (int k) \<le> Y" by simp
    then have "int k \<le> \<lfloor>Y\<rfloor>" by (simp only: le_floor_iff)
    with Fle have "nat \<lfloor>Y\<rfloor> = k" by simp
    then show ?thesis by (simp add: minF k_def)
  qed
qed

text \<open>
  The index that the resize reads is, in the library's binary64 arithmetic, not always
  the floor of the exact quotient: from 68 rows to 224, output row 168 reads input row
  50, where the exact quotient \<open>168 * 68 / 224\<close> is 51.
\<close>

lemma sourceNearest_binary64_example:
  "sourceNearest 68 224 168 = 50 \<and> (168 * 68) div 224 = (51::nat) \<and>
   sourceNearest 600 224 84 = 224 \<and> sourceNearest 30 22 11 = 14 \<and>
   sourceNearest 512 224 100 = 228"
  by (simp add: sourceNearest_def float64_floor_def float64_times_def float64_quot_def
      roundHalfEven_def Let_def bits.simps)

subsection \<open>The preprocessed tensor\<close>

text \<open>
  Claim C1. For every valid decoded image, \<^verbatim>\<open>preprocessImage\<close> resolves with a tensor of
  shape (1, 224, 224, 3) whose 150528 values all lie between 0 and 1; the value at row
  \<open>r\<close>, column \<open>c\<close>, channel \<open>ch\<close> is the byte of that channel at the source pixel that the
  nearest-neighbour resize reads (row \<open>sourceNearest height 224 r\<close>, column
  \<open>sourceNearest width 224 c\<close>, a pixel of the image), converted to floating point and
  divided by 255. That source row is the floor of \<open>r * height / 224\<close>, or the row before
  it where 224 divides \<open>r * height\<close>, and columns alike (for every image of fewer than
  \<open>2 ^ 42\<close> rows and columns). The index arithmetic is binary64; the division by 255 and
  the values are modelled as reals.
\<close>

theorem preprocessImage_spec:
  assumes "valid_image img"
  shows "\<exists>t e'. preprocessImage img e = (Some t, e') \<and>
           shape t = [1, 224, 224, 3] \<and>
           length (vals t) = 150528 \<and>
           (\<forall>v \<in> set (vals t). 0 \<le> v \<and> v \<le> 1) \<and>
           (\<forall>r<224. \<forall>c<224. \<forall>ch<3.
              sourceNearest (height img) 224 r < height img \<and>
              sourceNearest (width img) 224 c < width img \<and>
              vals t ! ((r * 224 + c) * 3 + ch) =
                real (unat (data img ! ((sourceNearest (height img) 224 r * width img
                                          + sourceNearest (width img) 224 c) * 4 + ch)))
                  / 255.0) \<and>
           (height img * 224 < 2 ^ 50 \<longrightarrow>
              (\<forall>r<224. sourceNearest (height img) 224 r = r * height img div 224 \<or>
                 (224 dvd r * height img \<and>
                  sourceNearest (height img) 224 r + 1 = r * height img div 224))) \<and>
           (width img * 224 < 2 ^ 50 \<longrightarrow>
              (\<forall>c<224. sourceNearest (width img) 224 c = c * width img div 224 \<or>
                 (224 dvd c * width img \<and>
                  sourceNearest (width img) 224 c + 1 = c * width img div 224)))"
proof -
  from preprocessImage_result [OF assms, of e] obtain t where
    pre: "preprocessImage img e =
       (Some t, e\<lparr>live := [nextId e + 4, nextId e + 3, nextId e + 2, nextId e + 1,
                           nextId e] @ live e, nextId := nextId e + 5\<rparr>)"
    and sh: "shape t = [1, 224, 224, 3]" and len: "length (vals t) = 150528"
    and px: "\<forall>v \<in> set (vals t). \<exists>p d. p < width img * height img \<and> d < 3 \<and>
              v = real (unat (data img ! (p * 4 + d))) / 255"
    and nth: "\<forall>r<224. \<forall>c<224. \<forall>ch<3.
              vals t ! ((r * 224 + c) * 3 + ch) =
                real (unat (data img ! ((sourceNearest (height img) 224 r * width img
                                          + sourceNearest (width img) 224 c) * 4 + ch))) / 255"
    by blast
  from assms have pos: "0 < width img" "0 < height img" by (simp_all add: valid_image_def)
  have range: "0 \<le> v \<and> v \<le> 1" if "v \<in> set (vals t)" for v
  proof -
    from px that obtain b :: "8 word" where v: "v = real (unat b) / 255" by blast
    define n where "n = unat b"
    have "n < 256"
      unfolding n_def using unsigned_less [of b, where ?'a = nat] by simp
    moreover have "v = real n / 255" by (simp only: v n_def)
    ultimately show ?thesis by simp
  qed
  have rows: "sourceNearest (height img) 224 r = r * height img div 224 \<or>
      (224 dvd r * height img \<and> sourceNearest (height img) 224 r + 1 = r * height img div 224)"
    if "height img * 224 < 2 ^ 50" "r < 224" for r
    using pos(2) that(2,1) by (rule sourceNearest_exact_or_below)
  have cols: "sourceNearest (width img) 224 c = c * width img div 224 \<or>
      (224 dvd c * width img \<and> sourceNearest (width img) 224 c + 1 = c * width img div 224)"
    if "width img * 224 < 2 ^ 50" "c < 224" for c
    using pos(1) that(2,1) by (rule sourceNearest_exact_or_below)
  have vals: "\<forall>r<224. \<forall>c<224. \<forall>ch<3.
              sourceNearest (height img) 224 r < height img \<and>
              sourceNearest (width img) 224 c < width img \<and>
              vals t ! ((r * 224 + c) * 3 + ch) =
                real (unat (data img ! ((sourceNearest (height img) 224 r * width img
                                          + sourceNearest (width img) 224 c) * 4 + ch)))
                  / 255.0"
    using nth sourceNearest_less [OF pos(2)] sourceNearest_less [OF pos(1)] by simp
  from pre sh len range vals rows cols show ?thesis
    by (intro exI [of _ t] exI conjI ballI allI impI) (simp_all only:)
qed

text \<open>The theorem at a 2-by-1 image.\<close>

theorem preprocessImage_spec_witness:
  "valid_image \<lparr>width = 2, height = 1, data = [10, 20, 30, 255, 40, 50, 60, 255]\<rparr> \<and>
   (\<exists>t e'. preprocessImage \<lparr>width = 2, height = 1, data = [10, 20, 30, 255, 40, 50, 60, 255]\<rparr>
              \<lparr>live = [], nextId = 0\<rparr> = (Some t, e') \<and>
      shape t = [1, 224, 224, 3] \<and> length (vals t) = 150528 \<and>
      (\<forall>v \<in> set (vals t). 0 \<le> v \<and> v \<le> 1))"
proof -
  let ?img = "\<lparr>width = 2, height = 1, data = [10, 20, 30, 255, 40, 50, 60, 255]\<rparr>"
  have v: "valid_image ?img" by (simp add: valid_image_def)
  from preprocessImage_spec [OF v, of "\<lparr>live = [], nextId = 0\<rparr>"] v show ?thesis by blast
qed

lemma concat_replicate_pixel_nth:
  assumes "i < n" and "j < 4"
  shows "concat (replicate n [a, b, c, d]) ! (i * 4 + j) = [a, b, c, d] ! j"
proof -
  have "replicate n [a, b, c, d] = map (\<lambda>_. [a, b, c, d]) [0..<n]"
    by (simp add: map_replicate_trivial)
  moreover have "concat (map (\<lambda>_. [a, b, c, d]) [0..<n]) ! (i * 4 + j) = [a, b, c, d] ! j"
    using assms by (intro nth_concat_map_const) simp_all
  ultimately show ?thesis by simp
qed

lemma preprocessImage_constant:
  assumes "valid_image img"
    and "\<And>p d. p < width img * height img \<Longrightarrow> d < 3 \<Longrightarrow> data img ! (p * 4 + d) = b"
  shows "map_option (\<lambda>t. (shape t, vals t)) (fst (preprocessImage img e)) =
           Some ([1, 224, 224, 3], replicate 150528 (real (unat b) / 255))"
proof -
  from preprocessImage_result [OF assms(1), of e] obtain t e' where
    pre: "preprocessImage img e = (Some t, e')"
    and sh: "shape t = [1, 224, 224, 3]" and len: "length (vals t) = 150528"
    and px: "\<forall>v \<in> set (vals t). \<exists>p d. p < width img * height img \<and> d < 3 \<and>
              v = real (unat (data img ! (p * 4 + d))) / 255"
    by blast
  have "v = real (unat b) / 255" if "v \<in> set (vals t)" for v
    using px that assms(2) by metis
  with len have "vals t = replicate 150528 (real (unat b) / 255)"
    by (intro replicate_eqI)
  with pre sh show ?thesis by simp
qed

text \<open>
  Claim C9. A 512-by-512 image whose pixels are all zero (opaque black) preprocesses to a
  (1, 224, 224, 3) tensor of zeros, and a 100-by-50 image whose pixels are all 255 to a
  (1, 224, 224, 3) tensor of ones.
\<close>

theorem preprocessImage_scenarios:
  "map_option (\<lambda>t. (shape t, vals t))
     (fst (preprocessImage
        \<lparr>width = 512, height = 512, data = concat (replicate (512 * 512) [0, 0, 0, 255])\<rparr> e))
     = Some ([1, 224, 224, 3], replicate (224 * 224 * 3) 0) \<and>
   map_option (\<lambda>t. (shape t, vals t))
     (fst (preprocessImage
        \<lparr>width = 100, height = 50, data = concat (replicate (100 * 50) [255, 255, 255, 255])\<rparr> e))
     = Some ([1, 224, 224, 3], replicate (224 * 224 * 3) 1)"
proof
  let ?black = "\<lparr>width = 512, height = 512, data = concat (replicate (512 * 512) [0, 0, 0, 255])\<rparr>"
  have "valid_image ?black" by (simp add: valid_image_def length_concat sum_list_replicate)
  moreover have "data ?black ! (p * 4 + d) = 0" if "p < width ?black * height ?black" "d < 3" for p d
  proof -
    have "concat (replicate (512 * 512) [0, 0, 0, 255 :: 8 word]) ! (p * 4 + d)
            = [0, 0, 0, 255] ! d"
      using that by (intro concat_replicate_pixel_nth) simp_all
    moreover have "[0, 0, 0, 255 :: 8 word] ! d = 0"
      using that(2) by (auto simp: less_Suc_eq numeral_3_eq_3)
    ultimately show ?thesis by simp
  qed
  ultimately have "map_option (\<lambda>t. (shape t, vals t)) (fst (preprocessImage ?black e)) =
           Some ([1, 224, 224, 3], replicate 150528 (real (unat (0 :: 8 word)) / 255))"
    by (rule preprocessImage_constant)
  then show "map_option (\<lambda>t. (shape t, vals t)) (fst (preprocessImage ?black e))
     = Some ([1, 224, 224, 3], replicate (224 * 224 * 3) 0)" by simp
next
  let ?white = "\<lparr>width = 100, height = 50, data = concat (replicate (100 * 50) [255, 255, 255, 255])\<rparr>"
  have "valid_image ?white" by (simp add: valid_image_def length_concat sum_list_replicate)
  moreover have "data ?white ! (p * 4 + d) = 255" if "p < width ?white * height ?white" "d < 3" for p d
  proof -
    have "concat (replicate (100 * 50) [255, 255, 255, 255 :: 8 word]) ! (p * 4 + d)
            = [255, 255, 255, 255] ! d"
      using that by (intro concat_replicate_pixel_nth) simp_all
    moreover have "[255, 255, 255, 255 :: 8 word] ! d = 255"
      using that(2) by (auto simp: less_Suc_eq numeral_3_eq_3)
    ultimately show ?thesis by simp
  qed
  ultimately have "map_option (\<lambda>t. (shape t, vals t)) (fst (preprocessImage ?white e)) =
           Some ([1, 224, 224, 3], replicate 150528 (real (unat (255 :: 8 word)) / 255))"
    by (rule preprocessImage_constant)
  then show "map_option (\<lambda>t. (shape t, vals t)) (fst (preprocessImage ?white e))
     = Some ([1, 224, 224, 3], replicate (224 * 224 * 3) 1)" by simp
qed

section \<open>The forward pass: two probabilities\<close>

lemma sum_list_pos_real:
  assumes "xs \<noteq> []" and "\<And>x. x \<in> set xs \<Longrightarrow> (0::real) < x"
  shows "0 < sum_list xs"
  using assms
proof (induction xs)
  case Nil
  then show ?case by simp
next
  case (Cons a xs)
  have "0 < a" using Cons.prems(2) by simp
  moreover have "0 \<le> sum_list xs"
    using Cons.prems(2) by (intro sum_list_nonneg) (simp add: less_imp_le)
  ultimately show ?case by simp
qed

lemma member_le_sum_list_real:
  assumes "x \<in> set xs" and "\<And>y. y \<in> set xs \<Longrightarrow> (0::real) \<le> y"
  shows "x \<le> sum_list xs"
  using assms
proof (induction xs)
  case Nil
  then show ?case by simp
next
  case (Cons a xs)
  have a: "0 \<le> a" using Cons.prems(2) by simp
  have rest: "0 \<le> sum_list xs" using Cons.prems(2) by (intro sum_list_nonneg) simp
  show ?case
  proof (cases "x = a")
    case True
    with rest show ?thesis by simp
  next
    case False
    with Cons.prems(1) have "x \<in> set xs" by simp
    then have "x \<le> sum_list xs" using Cons.IH Cons.prems(2) by simp
    with a show ?thesis by simp
  qed
qed

lemma sum_list_map_divide:
  "sum_list (map (\<lambda>v. v / s) xs) = sum_list xs / (s::real)"
  by (induction xs) (simp_all add: add_divide_distrib)

lemma softmax_length: "length (softmax logits) = length logits"
  by (simp add: softmax_def Let_def)

lemma softmax_range:
  assumes "v \<in> set (softmax logits)"
  shows "0 \<le> v \<and> v \<le> 1"
proof -
  let ?b = "map (\<lambda>v. exp (v - maxList logits)) logits"
  have pos: "0 < x" if "x \<in> set ?b" for x using that by auto
  from assms obtain x where x: "x \<in> set ?b" and v: "v = x / sum_list ?b"
    by (auto simp: softmax_def Let_def)
  have "x \<le> sum_list ?b"
    using x pos by (intro member_le_sum_list_real) (auto simp: less_imp_le)
  moreover have "0 < x" using x by (rule pos)
  ultimately show ?thesis unfolding v by simp
qed

lemma softmax_sum:
  assumes "logits \<noteq> []"
  shows "sum_list (softmax logits) = 1"
proof -
  let ?b = "map (\<lambda>v. exp (v - maxList logits)) logits"
  have "0 < sum_list ?b"
    using assms by (intro sum_list_pos_real) auto
  moreover have "sum_list (softmax logits) = sum_list ?b / sum_list ?b"
    by (simp only: softmax_def Let_def sum_list_map_divide)
  ultimately show ?thesis by simp
qed

lemma dense_vals_single:
  "dense_vals K B units act (Suc 0) n xs =
     activate act (map (\<lambda>o'. B o' + sum_list (map (\<lambda>i. xs ! i * K (i * units + o')) [0..<n]))
       [0..<units])"
  by (simp add: dense_vals_def)

lemma predict_buildModel:
  assumes "shape x = [1, 224, 224, 3]"
  shows "\<exists>logits. length logits = 2 \<and>
           predict (buildModel K B) x g e =
             (Inr (\<lparr>tid = nextId e, shape = [1, 2], vals = softmax logits\<rparr>,
                   e\<lparr>live := nextId e # live e, nextId := Suc (nextId e)\<rparr>),
              buildModel K B, g)"
proof -
  have "\<exists>logits. length logits = 2 \<and>
      dense_vals K' B' 2 Softmax (Suc 0) 128 ys = softmax logits" for K' B' ys
  proof (intro exI conjI)
    show "dense_vals K' B' 2 Softmax (Suc 0) 128 ys =
      softmax (map (\<lambda>o'. B' o' + sum_list (map (\<lambda>i. ys ! i * K' (i * 2 + o')) [0..<128]))
         [0..<2])"
      by (simp only: dense_vals_single activate.simps)
    show "length (map (\<lambda>o'. B' o' + sum_list (map (\<lambda>i. ys ! i * K' (i * 2 + o')) [0..<128]))
         [0..<2]) = 2"
      by simp
  qed
  then show ?thesis
    using assms
    by (simp add: predict_def buildModel_def compile_def sequential_def modelInputShape_def
        makeTensor_def)
qed

text \<open>
  Claim C2. For every model that the construction in \<^verbatim>\<open>loadModel\<close> produces (whatever
  its initial weights) and every input tensor of shape (1, 224, 224, 3),
  \<^verbatim>\<open>model.predict\<close> returns a tensor of exactly two values, each between 0 and 1, whose
  sum is 1. Floating-point numbers are modelled as reals, so the sum is exact.
\<close>

theorem predict_probabilities:
  assumes "shape x = [1, 224, 224, 3]"
  shows "\<exists>y e'. predict (buildModel K B) x g e = (Inr (y, e'), buildModel K B, g) \<and>
           shape y = [1, 2] \<and> length (vals y) = 2 \<and>
           (\<forall>v \<in> set (vals y). 0 \<le> v \<and> v \<le> 1) \<and>
           sum_list (vals y) = 1"
proof -
  from predict_buildModel [OF assms, of K B g e] obtain logits where
    len: "length logits = 2" and
    p: "predict (buildModel K B) x g e =
             (Inr (\<lparr>tid = nextId e, shape = [1, 2], vals = softmax logits\<rparr>,
                   e\<lparr>live := nextId e # live e, nextId := Suc (nextId e)\<rparr>),
              buildModel K B, g)"
    by blast
  from len have ne: "logits \<noteq> []" by auto
  show ?thesis
    using p len softmax_range [of _ logits] softmax_sum [OF ne]
    by (intro exI [of _ "\<lparr>tid = nextId e, shape = [1, 2], vals = softmax logits\<rparr>"]
        exI [of _ "e\<lparr>live := nextId e # live e, nextId := Suc (nextId e)\<rparr>"] conjI ballI)
      (simp_all add: softmax_length)
qed

text \<open>The theorem at the all-zero input and all-zero weights.\<close>

theorem predict_probabilities_witness:
  "shape \<lparr>tid = 0, shape = [1, 224, 224, 3], vals = replicate 150528 (0::real)\<rparr> = [1, 224, 224, 3] \<and>
   (\<exists>y e'. predict (buildModel (\<lambda>i j. 0) (\<lambda>i j. 0))
             \<lparr>tid = 0, shape = [1, 224, 224, 3], vals = replicate 150528 0\<rparr> (\<lambda>i. 0)
             \<lparr>live = [0], nextId = 1\<rparr>
             = (Inr (y, e'), buildModel (\<lambda>i j. 0) (\<lambda>i j. 0), \<lambda>i. 0) \<and>
           shape y = [1, 2] \<and> length (vals y) = 2 \<and>
           (\<forall>v \<in> set (vals y). 0 \<le> v \<and> v \<le> 1) \<and>
           sum_list (vals y) = 1)"
proof -
  let ?x = "\<lparr>tid = 0, shape = [1, 224, 224, 3], vals = replicate 150528 (0::real)\<rparr>"
  have s: "shape ?x = [1, 224, 224, 3]" by simp
  from predict_probabilities [OF s, of "\<lambda>i j. 0" "\<lambda>i j. 0" "\<lambda>i. 0" "\<lparr>live = [0], nextId = 1\<rparr>"] s
  show ?thesis by blast
qed

section \<open>The forward pass and the state around it\<close>

text \<open>
  In training mode a dropout layer reads the random source and uses it up: the same
  value is dropped under one source and kept, scaled, under another.
\<close>

lemma dropout_training_draws:
  "apply_layer K B True (\<lambda>i. 0) (Dropout (1 / 2)) ([2], [3, 5])
     = (Inr ([2], [0, 0]), advance 2 (\<lambda>i. 0)) \<and>
   apply_layer K B True (\<lambda>i. 1) (Dropout (1 / 2)) ([2], [3, 5])
     = (Inr ([2], [6, 10]), advance 2 (\<lambda>i. 1))"
  by (simp add: dropout_vals_def upt_rec numeral_2_eq_2)

lemma apply_layer_inference:
  "apply_layer K B False g l x = (fst (apply_layer K B False g' l x), g)"
  by (cases l; cases x) (simp_all split: list.split)

lemma forward_inference:
  "forward K B False g i ls x = (fst (forward K B False g' i ls x), g)"
proof (induction ls arbitrary: i x)
  case Nil
  then show ?case by simp
next
  case (Cons l ls)
  obtain r where r: "apply_layer (K i) (B i) False g' l x = (r, g')"
    using apply_layer_inference [of "K i" "B i" g' l x g'] by simp
  then have r': "apply_layer (K i) (B i) False g l x = (r, g)"
    using apply_layer_inference [of "K i" "B i" g l x g'] by simp
  show ?case
  proof (cases r)
    case (Inl err)
    with r r' show ?thesis by simp
  next
    case (Inr y)
    with r r' Cons.IH [of "Suc i" y] show ?thesis by simp
  qed
qed

lemma predict_inference:
  "predict m x g e = (fst (predict m x g' e), m, g)"
proof -
  obtain r where "forward (kernel m) (bias m) False g' 0 (layers m) (shape x, vals x) = (r, g')"
    using forward_inference [of "kernel m" "bias m" g' 0 "layers m" "(shape x, vals x)" g']
    by simp
  moreover from this
  have "forward (kernel m) (bias m) False g 0 (layers m) (shape x, vals x) = (r, g)"
    using forward_inference [of "kernel m" "bias m" g 0 "layers m" "(shape x, vals x)" g']
    by simp
  ultimately show ?thesis
    by (auto simp add: predict_def split: option.split list.split sum.split prod.split)
qed

lemma predict_engine:
  assumes "predict m x g e = (Inr (y, e2), m', g')"
  shows "e2 = e\<lparr>live := nextId e # live e, nextId := Suc (nextId e)\<rparr> \<and> tid y = nextId e"
  using assms
  by (auto simp add: predict_def makeTensor_def
      split: option.splits list.splits sum.splits prod.splits if_splits)

lemma predict_registry:
  assumes "predict m x g e = (Inr (y, e1), m', g')"
  shows "\<exists>y2 e2. predict m x g e' = (Inr (y2, e2), m', g') \<and>
           shape y2 = shape y \<and> vals y2 = vals y"
  using assms
  by (auto simp add: predict_def makeTensor_def
      split: option.splits list.splits sum.splits prod.splits if_splits)

lemma predict_registry_error:
  assumes "predict m x g e = (Inl err, m', g')"
  shows "predict m x g e' = (Inl err, m', g')"
  using assms
  by (auto simp add: predict_def makeTensor_def
      split: option.splits list.splits sum.splits prod.splits if_splits)

text \<open>
  Claim C3. A call of \<^verbatim>\<open>model.predict\<close> is given the model object, the random source
  and the registry of tensors, and hands them back. It hands back the model and the
  random source as it got them, and its output does not depend on the random source or
  on the registry. So a second call with the same model and the same tensor, in the
  state the first call left (\<open>m1\<close>, \<open>g1\<close>, \<open>e1\<close>) or in any other state of the random source
  and the registry (\<open>g'\<close>, \<open>e'\<close>), yields the same output: both calls throw the same error,
  or both return tensors of the same shape and values.
\<close>

theorem predict_repeatable:
  "(case predict m x g e of
      (Inl err, m1, g1) \<Rightarrow>
        m1 = m \<and> g1 = g \<and>
        predict m1 x g1 e = (Inl err, m, g) \<and>
        predict m x g' e' = (Inl err, m, g')
    | (Inr (y1, e1), m1, g1) \<Rightarrow>
        m1 = m \<and> g1 = g \<and>
        (\<exists>y2 e2. predict m1 x g1 e1 = (Inr (y2, e2), m, g) \<and>
                 shape y2 = shape y1 \<and> vals y2 = vals y1) \<and>
        (\<exists>y3 e3. predict m x g' e' = (Inr (y3, e3), m, g') \<and>
                 shape y3 = shape y1 \<and> vals y3 = vals y1))"
proof (cases "fst (predict m x g e)")
  case (Inl err)
  with predict_inference [of m x g e g] have p: "predict m x g e = (Inl err, m, g)" by simp
  from predict_inference [of m x g' e g] p have "predict m x g' e = (Inl err, m, g')" by simp
  from predict_registry_error [OF this] p show ?thesis by simp
next
  case (Inr ye)
  obtain y1 e1 where ye: "ye = (y1, e1)" by (cases ye)
  with Inr predict_inference [of m x g e g]
  have p: "predict m x g e = (Inr (y1, e1), m, g)" by simp
  from predict_inference [of m x g' e g] p
  have p': "predict m x g' e = (Inr (y1, e1), m, g')" by simp
  from predict_registry [OF p, of e1] predict_registry [OF p', of e'] p
  show ?thesis by simp
qed

section \<open>The architecture\<close>

text \<open>
  Claim C4. The construction in \<^verbatim>\<open>loadModel\<close> takes no argument but the initial weights
  that the library draws, and the model it returns has exactly the eleven layers of the
  specification, the input shape (224, 224, 3) on the first, and is compiled with Adam at
  learning rate 0.001, the categorical cross-entropy loss and the accuracy metric.
\<close>

theorem buildModel_architecture:
  "map describe_layer (layers (buildModel K B)) = spec_architecture \<and>
   modelInputShape (layers (buildModel K B)) = Some [224, 224, 3] \<and>
   map_option optimizer (compiled (buildModel K B)) = Some (Adam (1 / 1000)) \<and>
   map_option (lossByName \<circ> loss) (compiled (buildModel K B)) = Some (Some CategoricalCrossEntropy) \<and>
   map_option (map metricByName \<circ> metrics) (compiled (buildModel K B)) = Some [Some Accuracy]"
  by (simp add: buildModel_def compile_def sequential_def spec_architecture_def
      modelInputShape_def lossByName_def metricByName_def)

section \<open>The model during a session\<close>

lemma predict_state:
  assumes "predict m x g e = (r, m', g')"
  shows "m' = m \<and> g' = g"
  using assms predict_inference [of m x g e g] by simp

lemma analyzeECG_model: "model (analyzeECG env s) = model s"
  by (auto simp add: analyzeECG_def analyzeECG_catch_def Let_def
      split: option.split sum.split prod.split dest!: predict_state)

lemma handle_model: "model (handle ev s) = model s"
  by (cases ev) (simp_all add: analyzeECG_model handleImageUpload_def split: option.split)

lemma fold_handle_model: "model (fold handle evs s) = model s"
  by (induction evs arbitrary: s) (simp_all add: handle_model)

lemma renders_fold: "renders n menvs evs s = fold handle evs s"
  by (induction evs arbitrary: n s) (simp_all add: afterRender_def)

lemma lifecycle_fold: "lifecycle menvs evs = fold handle evs (loadModel (menvs 0) initial)"
  by (simp add: lifecycle_def renders_fold afterRender_def)

lemma session_fold: "session menv evs = fold handle evs (loadModel menv initial)"
  by (simp add: session_def lifecycle_fold)

text \<open>
  Claim C8. Whatever the surroundings would give a build after each render (\<open>menvs\<close>)
  and whatever events the user sends, the model of the page is the one that the effect
  built after the first render, with the weights drawn then (none, when that build
  failed): the effect does not run again, so the model is built once, and no upload and
  no analysis, whose forward pass hands the model object back, changes the layers, the
  compilation or any weight.
\<close>

theorem model_built_once:
  "model (lifecycle menvs evs) =
     (if backendFails (menvs 0) then None
      else Some (buildModel (initKernel (menvs 0)) (initBias (menvs 0))))"
  by (simp add: lifecycle_fold fold_handle_model loadModel_def initial_def Let_def)

section \<open>The paths of one analysis\<close>

lemma app_model_same: "model s = Some m \<Longrightarrow> s\<lparr>model := Some m\<rparr> = s"
  by (cases s) simp

lemma analyzeECG_predictThrows:
  assumes "imagePreview s = Some src" and "src \<noteq> []" and "model s = Some m"
    and "decode env src = Some img" and "valid_image img"
    and "predictThrows env"
  shows "analyzeECG env s =
     s\<lparr>loading := False,
       tf := (tf s)\<lparr>live := [nextId (tf s) + 4, nextId (tf s) + 3, nextId (tf s) + 2,
                               nextId (tf s) + 1, nextId (tf s)] @ live (tf s),
                     nextId := nextId (tf s) + 5\<rparr>,
       console := console s @ [''Error analyzing ECG:''],
       alerts := alerts s @ [''Error analyzing ECG image. Please try again.'']\<rparr>"
proof -
  from preprocessImage_result [OF assms(5), of "tf s"] obtain t where
    "preprocessImage img (tf s) =
       (Some t, (tf s)\<lparr>live := [nextId (tf s) + 4, nextId (tf s) + 3, nextId (tf s) + 2,
                               nextId (tf s) + 1, nextId (tf s)] @ live (tf s),
                     nextId := nextId (tf s) + 5\<rparr>)"
    by blast
  then show ?thesis
    using assms by (cases s) (simp add: analyzeECG_def analyzeECG_catch_def)
qed

lemma analyzeECG_failed:
  assumes "imagePreview s = Some src" and "src \<noteq> []" and "model s = Some m"
    and "decode env src = Some img" and "valid_image img"
    and "predictThrows env \<or> dataRejects env"
  shows "\<exists>e'. analyzeECG env s =
     s\<lparr>loading := False, tf := e',
       console := console s @ [''Error analyzing ECG:''],
       alerts := alerts s @ [''Error analyzing ECG image. Please try again.'']\<rparr> \<and>
     nextId (tf s) + 4 \<in> set (live e') \<and>
     numTensors (tf s) + 5 \<le> numTensors e'"
proof -
  let ?e1 = "(tf s)\<lparr>live := [nextId (tf s) + 4, nextId (tf s) + 3, nextId (tf s) + 2,
                               nextId (tf s) + 1, nextId (tf s)] @ live (tf s),
                     nextId := nextId (tf s) + 5\<rparr>"
  let ?caught = "\<lambda>e'. s\<lparr>loading := False, tf := e',
       console := console s @ [''Error analyzing ECG:''],
       alerts := alerts s @ [''Error analyzing ECG image. Please try again.'']\<rparr>"
  from preprocessImage_result [OF assms(5), of "tf s"] obtain t where
    pre: "preprocessImage img (tf s) = (Some t, ?e1)"
    by blast
  have e1: "nextId (tf s) + 4 \<in> set (live ?e1)" "numTensors (tf s) + 5 \<le> numTensors ?e1"
    by (simp_all add: numTensors_def)
  obtain r where p0: "predict m t (random env) ?e1 = (r, m, random env)"
    using predict_inference [of m t "random env" ?e1 "random env"] by simp
  show ?thesis
  proof (cases "predictThrows env \<or> (\<exists>err. r = Inl err)")
    case True
    then have "analyzeECG env s = ?caught ?e1"
      using assms(1-4) pre p0
      by (cases s) (auto simp add: analyzeECG_def analyzeECG_catch_def)
    with e1 show ?thesis by blast
  next
    case False
    then obtain y e2 where r: "r = Inr (y, e2)"
      by (cases r) auto
    with p0 have p: "predict m t (random env) ?e1 = (Inr (y, e2), m, random env)" by simp
    from predict_engine [OF p]
    have e2: "e2 = ?e1\<lparr>live := nextId ?e1 # live ?e1, nextId := Suc (nextId ?e1)\<rparr>"
      by simp
    from False assms(6) have "\<not> predictThrows env" "dataRejects env" by auto
    then have "analyzeECG env s = ?caught e2"
      using assms(1-4) pre p
      by (cases s) (simp add: analyzeECG_def analyzeECG_catch_def)
    moreover have "nextId (tf s) + 4 \<in> set (live e2)" "numTensors (tf s) + 5 \<le> numTensors e2"
      by (simp_all add: e2 numTensors_def)
    ultimately show ?thesis by blast
  qed
qed

lemma analyzeECG_success:
  assumes "imagePreview s = Some src" and "src \<noteq> []"
    and "model s = Some (buildModel K B)"
    and "decode env src = Some img" and "valid_image img"
    and "\<not> predictThrows env" and "\<not> dataRejects env"
    and "\<forall>i \<in> set (live (tf s)). i < nextId (tf s)"
  shows "\<exists>logits. length logits = 2 \<and>
     analyzeECG env s =
       s\<lparr>loading := False,
         prediction := Some
           \<lparr>stemiDetected = (softmax logits ! 1 > 0.5),
            confidence = max (softmax logits ! 1) (softmax logits ! 0) * 100,
            stemiProbability = softmax logits ! 1 * 100,
            noStemiProbability = softmax logits ! 0 * 100,
            features = \<lparr>stElevation = (random env 0 > 0.5),
                         qWaveChanges = (random env 1 > 0.6),
                         tWaveInversion = (random env 2 > 0.7),
                         heartRate = \<lfloor>random env 3 * 60\<rfloor> + 60\<rparr>,
            recommendation =
              (if softmax logits ! 1 > 0.5
               then ''URGENT: Possible STEMI detected. Immediate medical attention required. Activate catheterization lab.''
               else ''No STEMI detected. Continue monitoring and clinical assessment.'')\<rparr>,
         tf := (tf s)\<lparr>live := [nextId (tf s) + 3, nextId (tf s) + 2,
                               nextId (tf s) + 1, nextId (tf s)] @ live (tf s),
                     nextId := nextId (tf s) + 6\<rparr>\<rparr>"
proof -
  let ?e1 = "(tf s)\<lparr>live := [nextId (tf s) + 4, nextId (tf s) + 3, nextId (tf s) + 2,
                               nextId (tf s) + 1, nextId (tf s)] @ live (tf s),
                     nextId := nextId (tf s) + 5\<rparr>"
  from preprocessImage_result [OF assms(5), of "tf s"] obtain t where
    pre: "preprocessImage img (tf s) = (Some t, ?e1)"
    and tid: "tid t = nextId (tf s) + 4" and sh: "shape t = [1, 224, 224, 3]"
    by blast
  from predict_buildModel [OF sh, of K B "random env" ?e1] obtain logits where
    len: "length logits = 2" and
    p: "predict (buildModel K B) t (random env) ?e1 =
             (Inr (\<lparr>tid = nextId ?e1, shape = [1, 2], vals = softmax logits\<rparr>,
                   ?e1\<lparr>live := nextId ?e1 # live ?e1, nextId := Suc (nextId ?e1)\<rparr>),
              buildModel K B, random env)"
    by blast
  have fresh: "removeAll (nextId (tf s) + 4) (live (tf s)) = live (tf s)"
    "removeAll (Suc (nextId (tf s) + 4)) (live (tf s)) = live (tf s)"
    "removeAll (nextId (tf s) + 5) (live (tf s)) = live (tf s)"
    using assms(8) by (auto intro!: removeAll_id)
  show ?thesis
    using assms(1,2,3,4,6,7) pre p tid len fresh
    by (intro exI [of _ logits]; cases s) (simp add: analyzeECG_def dispose_def Let_def)
qed

section \<open>Sessions\<close>

lemma session_snoc: "session menv (evs @ [ev]) = handle ev (session menv evs)"
  by (simp add: session_fold)

lemma session_upload:
  assumes "\<not> backendFails menv"
  shows "session menv [ChooseFile (Some url)] =
     \<lparr>model = Some (buildModel (initKernel menv) (initBias menv)), imagePreview = Some url,
      prediction = None, loading = False, modelLoading = False,
      tf = \<lparr>live = [], nextId = 0\<rparr>, console = [], alerts = []\<rparr>"
  using assms
  by (simp add: session_fold loadModel_def initial_def uploadEnabled_def handleImageUpload_def)

section \<open>Tensors left live by an analysis\<close>

text \<open>
  Claim C5 says that the input tensor and the output tensor are released on every exit
  path of an analysis, so that the count of live tensors returns to its baseline. The
  two \<^verbatim>\<open>dispose\<close> calls stand at the end of the \<^verbatim>\<open>try\<close> block, not in
  \<^verbatim>\<open>finally\<close>. In the session below the registry is empty before the analysis, the
  input tensor of the analysis is tensor 4, \<^verbatim>\<open>model.predict\<close> throws, and afterwards
  five tensors are live, the input tensor among them.
\<close>

theorem analyzeECG_failure_keeps_input_tensor:
  "numTensors (tf (session \<lparr>backendFails = False, initKernel = \<lambda>i j. 0, initBias = \<lambda>i j. 0\<rparr>
       [ChooseFile (Some ''ecg'')])) = 0 \<and>
   map_option tid
     (fst (preprocessImage \<lparr>width = 2, height = 2, data = replicate 16 255\<rparr>
       \<lparr>live = [], nextId = 0\<rparr>)) = Some 4 \<and>
   live (tf (session \<lparr>backendFails = False, initKernel = \<lambda>i j. 0, initBias = \<lambda>i j. 0\<rparr>
       [ChooseFile (Some ''ecg''),
        ClickAnalyze \<lparr>decode = \<lambda>url. Some \<lparr>width = 2, height = 2, data = replicate 16 255\<rparr>,
          predictThrows = True, dataRejects = False, random = \<lambda>i. 0\<rparr>])) = [4, 3, 2, 1, 0]"
proof -
  let ?M = "\<lparr>backendFails = False, initKernel = \<lambda>i j. 0, initBias = \<lambda>i j. 0\<rparr>"
  let ?img = "\<lparr>width = 2, height = 2, data = replicate 16 255\<rparr>"
  let ?env = "\<lparr>decode = \<lambda>url. Some ?img, predictThrows = True, dataRejects = False,
      random = \<lambda>i. 0\<rparr>"
  let ?s1 = "session ?M [ChooseFile (Some ''ecg'')]"
  have s1: "?s1 = \<lparr>model = Some (buildModel (\<lambda>i j. 0) (\<lambda>i j. 0)), imagePreview = Some ''ecg'',
      prediction = None, loading = False, modelLoading = False,
      tf = \<lparr>live = [], nextId = 0\<rparr>, console = [], alerts = []\<rparr>"
    using session_upload [of ?M "''ecg''"] by simp
  have v: "valid_image ?img" by (simp add: valid_image_def)
  from preprocessImage_result [OF v, of "\<lparr>live = [], nextId = 0\<rparr>"]
  have tid: "map_option tid (fst (preprocessImage ?img \<lparr>live = [], nextId = 0\<rparr>)) = Some 4"
    by auto
  have "analyzeECG ?env ?s1 =
     ?s1\<lparr>loading := False,
       tf := (tf ?s1)\<lparr>live := [nextId (tf ?s1) + 4, nextId (tf ?s1) + 3, nextId (tf ?s1) + 2,
                               nextId (tf ?s1) + 1, nextId (tf ?s1)] @ live (tf ?s1),
                     nextId := nextId (tf ?s1) + 5\<rparr>,
       console := console ?s1 @ [''Error analyzing ECG:''],
       alerts := alerts ?s1 @ [''Error analyzing ECG image. Please try again.'']\<rparr>"
    by (rule analyzeECG_predictThrows [where src = "''ecg''" and img = ?img])
      (simp_all add: s1 valid_image_def)
  then have "live (tf (analyzeECG ?env ?s1)) = [4, 3, 2, 1, 0]"
    by (simp add: s1)
  moreover have "session ?M [ChooseFile (Some ''ecg''), ClickAnalyze ?env] = analyzeECG ?env ?s1"
    using session_snoc [of ?M "[ChooseFile (Some ''ecg'')]" "ClickAnalyze ?env"]
    by (simp add: s1 analyzeEnabled_def truthy_def)
  ultimately show ?thesis using tid by (simp add: s1 numTensors_def)
qed


lemma session_analyze_success:
  assumes "\<not> backendFails menv" and "decode env url = Some img" and "valid_image img"
    and "\<not> predictThrows env" and "\<not> dataRejects env" and "url \<noteq> []"
  shows "\<exists>r. session menv [ChooseFile (Some url), ClickAnalyze env] =
     \<lparr>model = Some (buildModel (initKernel menv) (initBias menv)), imagePreview = Some url,
      prediction = Some r, loading = False, modelLoading = False,
      tf = \<lparr>live = [3, 2, 1, 0], nextId = 6\<rparr>, console = [], alerts = []\<rparr>"
proof -
  let ?s1 = "session menv [ChooseFile (Some url)]"
  have s1: "?s1 = \<lparr>model = Some (buildModel (initKernel menv) (initBias menv)),
      imagePreview = Some url, prediction = None, loading = False, modelLoading = False,
      tf = \<lparr>live = [], nextId = 0\<rparr>, console = [], alerts = []\<rparr>"
    using assms(1) by (rule session_upload)
  have "\<exists>logits. length logits = 2 \<and>
     analyzeECG env ?s1 =
       ?s1\<lparr>loading := False,
         prediction := Some
           \<lparr>stemiDetected = (softmax logits ! 1 > 0.5),
            confidence = max (softmax logits ! 1) (softmax logits ! 0) * 100,
            stemiProbability = softmax logits ! 1 * 100,
            noStemiProbability = softmax logits ! 0 * 100,
            features = \<lparr>stElevation = (random env 0 > 0.5),
                         qWaveChanges = (random env 1 > 0.6),
                         tWaveInversion = (random env 2 > 0.7),
                         heartRate = \<lfloor>random env 3 * 60\<rfloor> + 60\<rparr>,
            recommendation =
              (if softmax logits ! 1 > 0.5
               then ''URGENT: Possible STEMI detected. Immediate medical attention required. Activate catheterization lab.''
               else ''No STEMI detected. Continue monitoring and clinical assessment.'')\<rparr>,
         tf := (tf ?s1)\<lparr>live := [nextId (tf ?s1) + 3, nextId (tf ?s1) + 2,
                               nextId (tf ?s1) + 1, nextId (tf ?s1)] @ live (tf ?s1),
                     nextId := nextId (tf ?s1) + 6\<rparr>\<rparr>"
    using assms(2-6)
    by (intro analyzeECG_success [where src = url and img = img]) (simp_all add: s1)
  then obtain r where "analyzeECG env ?s1 = ?s1\<lparr>loading := False, prediction := Some r,
         tf := (tf ?s1)\<lparr>live := [nextId (tf ?s1) + 3, nextId (tf ?s1) + 2,
                               nextId (tf ?s1) + 1, nextId (tf ?s1)] @ live (tf ?s1),
                     nextId := nextId (tf ?s1) + 6\<rparr>\<rparr>"
    by blast
  moreover have "session menv [ChooseFile (Some url), ClickAnalyze env] = analyzeECG env ?s1"
    using session_snoc [of menv "[ChooseFile (Some url)]" "ClickAnalyze env"] assms(6)
    by (simp add: s1 analyzeEnabled_def truthy_def)
  ultimately show ?thesis by (simp add: s1)
qed

text \<open>On the success path the four intermediate tensors of the chain stay live.\<close>

lemma analyzeECG_success_keeps_intermediates:
  "live (tf (session \<lparr>backendFails = False, initKernel = \<lambda>i j. 0, initBias = \<lambda>i j. 0\<rparr>
       [ChooseFile (Some ''ecg''),
        ClickAnalyze \<lparr>decode = \<lambda>url. Some \<lparr>width = 2, height = 2, data = replicate 16 255\<rparr>,
          predictThrows = False, dataRejects = False, random = \<lambda>i. 0\<rparr>])) = [3, 2, 1, 0]"
proof -
  let ?M = "\<lparr>backendFails = False, initKernel = \<lambda>i j. 0, initBias = \<lambda>i j. 0\<rparr>"
  let ?img = "\<lparr>width = 2, height = 2, data = replicate 16 255\<rparr>"
  let ?env = "\<lparr>decode = \<lambda>url. Some ?img, predictThrows = False, dataRejects = False,
      random = \<lambda>i. 0\<rparr>"
  have "\<exists>r. session ?M [ChooseFile (Some ''ecg''), ClickAnalyze ?env] =
     \<lparr>model = Some (buildModel (initKernel ?M) (initBias ?M)), imagePreview = Some ''ecg'',
      prediction = Some r, loading = False, modelLoading = False,
      tf = \<lparr>live = [3, 2, 1, 0], nextId = 6\<rparr>, console = [], alerts = []\<rparr>"
    by (rule session_analyze_success [where img = ?img]) (simp_all add: valid_image_def)
  then show ?thesis by auto
qed

section \<open>A failed analysis\<close>

text \<open>
  Claim C6 says that a failed analysis resets the user-visible state to "no result". In
  the session below an analysis succeeds and a second one, of the same image, fails in
  \<^verbatim>\<open>model.predict\<close>: the user is alerted, and the result of the first analysis is still
  the one rendered.
\<close>

theorem failed_analysis_keeps_old_result:
  "prediction (session \<lparr>backendFails = False, initKernel = \<lambda>i j. 0, initBias = \<lambda>i j. 0\<rparr>
       [ChooseFile (Some ''ecg''),
        ClickAnalyze \<lparr>decode = \<lambda>url. Some \<lparr>width = 2, height = 2, data = replicate 16 255\<rparr>,
          predictThrows = False, dataRejects = False, random = \<lambda>i. 0\<rparr>,
        ClickAnalyze \<lparr>decode = \<lambda>url. Some \<lparr>width = 2, height = 2, data = replicate 16 255\<rparr>,
          predictThrows = True, dataRejects = False, random = \<lambda>i. 0\<rparr>]) \<noteq> None \<and>
   alerts (session \<lparr>backendFails = False, initKernel = \<lambda>i j. 0, initBias = \<lambda>i j. 0\<rparr>
       [ChooseFile (Some ''ecg''),
        ClickAnalyze \<lparr>decode = \<lambda>url. Some \<lparr>width = 2, height = 2, data = replicate 16 255\<rparr>,
          predictThrows = False, dataRejects = False, random = \<lambda>i. 0\<rparr>,
        ClickAnalyze \<lparr>decode = \<lambda>url. Some \<lparr>width = 2, height = 2, data = replicate 16 255\<rparr>,
          predictThrows = True, dataRejects = False, random = \<lambda>i. 0\<rparr>])
     = [''Error analyzing ECG image. Please try again.'']"
proof -
  let ?M = "\<lparr>backendFails = False, initKernel = \<lambda>i j. 0, initBias = \<lambda>i j. 0\<rparr>"
  let ?img = "\<lparr>width = 2, height = 2, data = replicate 16 255\<rparr>"
  let ?ok = "\<lparr>decode = \<lambda>url. Some ?img, predictThrows = False, dataRejects = False,
      random = \<lambda>i. 0\<rparr>"
  let ?bad = "\<lparr>decode = \<lambda>url. Some ?img, predictThrows = True, dataRejects = False,
      random = \<lambda>i. 0\<rparr>"
  let ?s2 = "session ?M [ChooseFile (Some ''ecg''), ClickAnalyze ?ok]"
  have "\<exists>r. ?s2 =
     \<lparr>model = Some (buildModel (initKernel ?M) (initBias ?M)), imagePreview = Some ''ecg'',
      prediction = Some r, loading = False, modelLoading = False,
      tf = \<lparr>live = [3, 2, 1, 0], nextId = 6\<rparr>, console = [], alerts = []\<rparr>"
    by (rule session_analyze_success [where img = ?img]) (simp_all add: valid_image_def)
  then obtain r where s2: "?s2 =
     \<lparr>model = Some (buildModel (initKernel ?M) (initBias ?M)), imagePreview = Some ''ecg'',
      prediction = Some r, loading = False, modelLoading = False,
      tf = \<lparr>live = [3, 2, 1, 0], nextId = 6\<rparr>, console = [], alerts = []\<rparr>"
    by blast
  have "analyzeECG ?bad ?s2 =
     ?s2\<lparr>loading := False,
       tf := (tf ?s2)\<lparr>live := [nextId (tf ?s2) + 4, nextId (tf ?s2) + 3, nextId (tf ?s2) + 2,
                               nextId (tf ?s2) + 1, nextId (tf ?s2)] @ live (tf ?s2),
                     nextId := nextId (tf ?s2) + 5\<rparr>,
       console := console ?s2 @ [''Error analyzing ECG:''],
       alerts := alerts ?s2 @ [''Error analyzing ECG image. Please try again.'']\<rparr>"
    by (rule analyzeECG_predictThrows [where src = "''ecg''" and img = ?img])
      (simp_all add: s2 valid_image_def)
  moreover have "session ?M [ChooseFile (Some ''ecg''), ClickAnalyze ?ok, ClickAnalyze ?bad]
      = analyzeECG ?bad ?s2"
    using session_snoc [of ?M "[ChooseFile (Some ''ecg''), ClickAnalyze ?ok]" "ClickAnalyze ?bad"]
    by (simp add: s2 analyzeEnabled_def truthy_def)
  ultimately show ?thesis by (simp add: s2)
qed

text \<open>
  Claim C6, amended. When the image has been preprocessed and the forward pass fails
  (\<^verbatim>\<open>model.predict\<close> throws, or reading the output rejects), the analysis is aborted: no
  new result is stored and the rendered result is left as it was; the user is alerted
  once and the error is logged once; \<^verbatim>\<open>loading\<close> is cleared; the model and the chosen
  image are kept; and the analysis button is enabled again, so a new attempt is
  accepted. Nothing is retried.
\<close>

theorem analyzeECG_forward_failure:
  assumes "analyzeEnabled s" and "imagePreview s = Some src"
    and "decode env src = Some img" and "valid_image img"
    and "predictThrows env \<or> dataRejects env"
  shows "prediction (handle (ClickAnalyze env) s) = prediction s \<and>
         alerts (handle (ClickAnalyze env) s) =
           alerts s @ [''Error analyzing ECG image. Please try again.''] \<and>
         console (handle (ClickAnalyze env) s) = console s @ [''Error analyzing ECG:''] \<and>
         \<not> loading (handle (ClickAnalyze env) s) \<and>
         model (handle (ClickAnalyze env) s) = model s \<and>
         imagePreview (handle (ClickAnalyze env) s) = imagePreview s \<and>
         analyzeEnabled (handle (ClickAnalyze env) s)"
proof -
  from assms(1) obtain m where m: "model s = Some m" by (auto simp: analyzeEnabled_def truthy_def)
  from assms(1,2) have ne: "src \<noteq> []" by (simp add: analyzeEnabled_def truthy_def)
  from analyzeECG_failed [OF assms(2) ne m assms(3,4,5)] obtain e' where
    "analyzeECG env s =
     s\<lparr>loading := False, tf := e',
       console := console s @ [''Error analyzing ECG:''],
       alerts := alerts s @ [''Error analyzing ECG image. Please try again.'']\<rparr>"
    by blast
  then show ?thesis using assms(1,2) m by (simp add: analyzeEnabled_def truthy_def)
qed

text \<open>The theorem at a 2-by-2 white image whose output cannot be read.\<close>

theorem analyzeECG_forward_failure_witness:
  "analyzeEnabled
     \<lparr>model = Some (buildModel (\<lambda>i j. 0) (\<lambda>i j. 0)), imagePreview = Some ''ecg'',
      prediction = None, loading = False, modelLoading = False,
      tf = \<lparr>live = [], nextId = 0\<rparr>, console = [], alerts = []\<rparr> \<and>
   valid_image \<lparr>width = 2, height = 2, data = replicate 16 255\<rparr> \<and>
   alerts (handle (ClickAnalyze \<lparr>decode = \<lambda>url. Some \<lparr>width = 2, height = 2, data = replicate 16 255\<rparr>,
          predictThrows = False, dataRejects = True, random = \<lambda>i. 0\<rparr>)
     \<lparr>model = Some (buildModel (\<lambda>i j. 0) (\<lambda>i j. 0)), imagePreview = Some ''ecg'',
      prediction = None, loading = False, modelLoading = False,
      tf = \<lparr>live = [], nextId = 0\<rparr>, console = [], alerts = []\<rparr>)
     = [''Error analyzing ECG image. Please try again.''] \<and>
   analyzeEnabled (handle (ClickAnalyze \<lparr>decode = \<lambda>url. Some \<lparr>width = 2, height = 2, data = replicate 16 255\<rparr>,
          predictThrows = False, dataRejects = True, random = \<lambda>i. 0\<rparr>)
     \<lparr>model = Some (buildModel (\<lambda>i j. 0) (\<lambda>i j. 0)), imagePreview = Some ''ecg'',
      prediction = None, loading = False, modelLoading = False,
      tf = \<lparr>live = [], nextId = 0\<rparr>, console = [], alerts = []\<rparr>)"
proof -
  let ?s = "\<lparr>model = Some (buildModel (\<lambda>i j. 0) (\<lambda>i j. 0)), imagePreview = Some ''ecg'',
      prediction = None, loading = False, modelLoading = False,
      tf = \<lparr>live = [], nextId = 0\<rparr>, console = [], alerts = []\<rparr>"
  let ?img = "\<lparr>width = 2, height = 2, data = replicate 16 255\<rparr>"
  let ?env = "\<lparr>decode = \<lambda>url. Some ?img, predictThrows = False, dataRejects = True,
      random = \<lambda>i. 0\<rparr>"
  have a: "analyzeEnabled ?s" by (simp add: analyzeEnabled_def truthy_def)
  have v: "valid_image ?img" by (simp add: valid_image_def)
  have "prediction (handle (ClickAnalyze ?env) ?s) = prediction ?s \<and>
         alerts (handle (ClickAnalyze ?env) ?s) =
           alerts ?s @ [''Error analyzing ECG image. Please try again.''] \<and>
         console (handle (ClickAnalyze ?env) ?s) = console ?s @ [''Error analyzing ECG:''] \<and>
         \<not> loading (handle (ClickAnalyze ?env) ?s) \<and>
         model (handle (ClickAnalyze ?env) ?s) = model ?s \<and>
         imagePreview (handle (ClickAnalyze ?env) ?s) = imagePreview ?s \<and>
         analyzeEnabled (handle (ClickAnalyze ?env) ?s)"
    by (rule analyzeECG_forward_failure [where src = "''ecg''" and img = ?img, OF a _ _ v])
      simp_all
  then have "alerts (handle (ClickAnalyze ?env) ?s) = [''Error analyzing ECG image. Please try again.'']"
    and "analyzeEnabled (handle (ClickAnalyze ?env) ?s)"
    by simp_all
  with a v show ?thesis by blast
qed


text \<open>An image that never loads leaves the analysis pending for good.\<close>

lemma analyzeECG_undecodable_pending:
  assumes "analyzeEnabled s" and "imagePreview s = Some src" and "decode env src = None"
  shows "handle (ClickAnalyze env) s = s\<lparr>loading := True\<rparr> \<and>
         \<not> analyzeEnabled (handle (ClickAnalyze env) s)"
  using assms by (auto simp add: analyzeEnabled_def truthy_def analyzeECG_def)

section \<open>A failed build of the model\<close>

text \<open>
  Claim C7 says that a failed construction is fatal and that the page does not go on
  running without a model. When the backend fails, \<^verbatim>\<open>loadModel\<close> catches the error:
  afterwards there is no model, nothing has been shown to the user, the upload button is
  enabled, and a chosen file is accepted.
\<close>

theorem failed_build_keeps_running:
  "model (loadModel \<lparr>backendFails = True, initKernel = \<lambda>i j. 0, initBias = \<lambda>i j. 0\<rparr> initial)
     = None \<and>
   uploadEnabled
     (loadModel \<lparr>backendFails = True, initKernel = \<lambda>i j. 0, initBias = \<lambda>i j. 0\<rparr> initial) \<and>
   alerts (loadModel \<lparr>backendFails = True, initKernel = \<lambda>i j. 0, initBias = \<lambda>i j. 0\<rparr> initial)
     = [] \<and>
   imagePreview (session \<lparr>backendFails = True, initKernel = \<lambda>i j. 0, initBias = \<lambda>i j. 0\<rparr>
     [ChooseFile (Some ''ecg'')]) = Some ''ecg''"
  by (simp add: session_fold loadModel_def initial_def uploadEnabled_def handleImageUpload_def)

lemma fold_handle_without_model:
  assumes "model s = None" and "prediction s = None"
  shows "model (fold handle evs s) = None \<and> prediction (fold handle evs s) = None \<and>
         alerts (fold handle evs s) = alerts s \<and> console (fold handle evs s) = console s \<and>
         loading (fold handle evs s) = loading s \<and>
         modelLoading (fold handle evs s) = modelLoading s \<and>
         tf (fold handle evs s) = tf s"
  using assms
proof (induction evs arbitrary: s)
  case Nil
  then show ?case by simp
next
  case (Cons ev evs)
  have step: "model (handle ev s) = None \<and> prediction (handle ev s) = None \<and>
         alerts (handle ev s) = alerts s \<and> console (handle ev s) = console s \<and>
         loading (handle ev s) = loading s \<and> modelLoading (handle ev s) = modelLoading s \<and>
         tf (handle ev s) = tf s"
    using Cons.prems
    by (cases ev) (simp_all add: analyzeEnabled_def truthy_def handleImageUpload_def split: option.split)
  with Cons.IH [of "handle ev s"] show ?case by simp
qed

text \<open>
  Claim C7, amended. When the construction of the model fails, the error is caught and
  logged to the console, and that is all: throughout the session there is no model and
  no result, the user is shown no alert, the model is no longer reported as loading, the
  upload button stays enabled and the analysis button is never enabled.
\<close>

theorem failed_build_logged_only:
  assumes "backendFails menv"
  shows "model (session menv evs) = None \<and>
         prediction (session menv evs) = None \<and>
         console (session menv evs) = [''Error loading model:''] \<and>
         alerts (session menv evs) = [] \<and>
         \<not> modelLoading (session menv evs) \<and>
         uploadEnabled (session menv evs) \<and>
         \<not> analyzeEnabled (session menv evs)"
proof -
  let ?s0 = "loadModel menv initial"
  have s0: "model ?s0 = None" "prediction ?s0 = None" "console ?s0 = [''Error loading model:'']"
    "alerts ?s0 = []" "\<not> modelLoading ?s0"
    using assms by (simp_all add: loadModel_def initial_def)
  from fold_handle_without_model [OF s0(1,2), of evs] s0 show ?thesis
    by (simp add: session_fold uploadEnabled_def analyzeEnabled_def truthy_def)
qed

text \<open>The theorem at a session that uploads an image and asks for an analysis.\<close>

theorem failed_build_logged_only_witness:
  "backendFails \<lparr>backendFails = True, initKernel = \<lambda>i j. 0, initBias = \<lambda>i j. 0\<rparr> \<and>
   model (session \<lparr>backendFails = True, initKernel = \<lambda>i j. 0, initBias = \<lambda>i j. 0\<rparr>
     [ChooseFile (Some ''ecg''),
      ClickAnalyze \<lparr>decode = \<lambda>url. Some \<lparr>width = 2, height = 2, data = replicate 16 255\<rparr>,
          predictThrows = False, dataRejects = False, random = \<lambda>i. 0\<rparr>]) = None \<and>
   alerts (session \<lparr>backendFails = True, initKernel = \<lambda>i j. 0, initBias = \<lambda>i j. 0\<rparr>
     [ChooseFile (Some ''ecg''),
      ClickAnalyze \<lparr>decode = \<lambda>url. Some \<lparr>width = 2, height = 2, data = replicate 16 255\<rparr>,
          predictThrows = False, dataRejects = False, random = \<lambda>i. 0\<rparr>]) = [] \<and>
   console (session \<lparr>backendFails = True, initKernel = \<lambda>i j. 0, initBias = \<lambda>i j. 0\<rparr>
     [ChooseFile (Some ''ecg''),
      ClickAnalyze \<lparr>decode = \<lambda>url. Some \<lparr>width = 2, height = 2, data = replicate 16 255\<rparr>,
          predictThrows = False, dataRejects = False, random = \<lambda>i. 0\<rparr>])
     = [''Error loading model:'']"
proof -
  let ?M = "\<lparr>backendFails = True, initKernel = \<lambda>i j. 0, initBias = \<lambda>i j. 0\<rparr>"
  have b: "backendFails ?M" by simp
  from failed_build_logged_only [OF b] b show ?thesis by blast
qed

section \<open>The rendered result\<close>

text \<open>
  Where a rendered result comes from: an event leaves the result that was rendered
  before it, or it is a click on the analysis button, on which
  \<^verbatim>\<open>model.predict\<close> returned a tensor \<open>y\<close> for the preprocessed image, and the result
  is computed from the two values of \<open>y\<close>.
\<close>

lemma handle_prediction_origin:
  assumes "prediction (handle ev s) = Some r"
  shows "prediction s = Some r \<or>
    (\<exists>env src m img x e1 y e2 m' g'.
       ev = ClickAnalyze env \<and> imagePreview s = Some src \<and> model s = Some m \<and>
       decode env src = Some img \<and> preprocessImage img (tf s) = (Some x, e1) \<and>
       \<not> predictThrows env \<and> \<not> dataRejects env \<and>
       predict m x (random env) e1 = (Inr (y, e2), m', g') \<and>
       (stemiDetected r \<longleftrightarrow> 0.5 < vals y ! 1) \<and>
       confidence r = 100 * max (vals y ! 1) (vals y ! 0) \<and>
       stemiProbability r = 100 * vals y ! 1 \<and>
       noStemiProbability r = 100 * vals y ! 0)"
proof (cases ev)
  case (ChooseFile f)
  with assms show ?thesis
    by (auto simp add: handleImageUpload_def split: option.splits if_splits)
next
  case (ClickAnalyze env)
  show ?thesis
  proof (cases "prediction s = Some r")
    case True
    then show ?thesis by simp
  next
    case False
    with assms ClickAnalyze have "\<exists>src m img x e1 y e2 m' g'.
       imagePreview s = Some src \<and> model s = Some m \<and>
       decode env src = Some img \<and> preprocessImage img (tf s) = (Some x, e1) \<and>
       \<not> predictThrows env \<and> \<not> dataRejects env \<and>
       predict m x (random env) e1 = (Inr (y, e2), m', g') \<and>
       (stemiDetected r \<longleftrightarrow> 0.5 < vals y ! 1) \<and>
       confidence r = 100 * max (vals y ! 1) (vals y ! 0) \<and>
       stemiProbability r = 100 * vals y ! 1 \<and>
       noStemiProbability r = 100 * vals y ! 0"
      by (auto simp add: analyzeECG_def analyzeECG_catch_def Let_def
          split: option.splits sum.splits prod.splits if_splits)
    with ClickAnalyze show ?thesis by blast
  qed
qed

text \<open>
  Claim C10. In every session, a result that the page renders was stored by a click on
  the analysis button of that session, on which nothing failed and
  \<^verbatim>\<open>model.predict\<close> returned a tensor \<open>y\<close> for the preprocessed image chosen then; the
  STEMI flag of the result is set
  exactly when the class-1 probability \<open>vals y ! 1\<close> strictly exceeds 0.5, and its
  confidence is 100 times the larger of the two class probabilities \<open>vals y ! 1\<close> and
  \<open>vals y ! 0\<close>.
\<close>

theorem rendered_result_from_prediction:
  assumes "prediction (session menv evs) = Some r"
  shows "\<exists>pre env post src m img x e1 y e2 m' g'.
    evs = pre @ ClickAnalyze env # post \<and>
    imagePreview (session menv pre) = Some src \<and> model (session menv pre) = Some m \<and>
    decode env src = Some img \<and>
    preprocessImage img (tf (session menv pre)) = (Some x, e1) \<and>
    \<not> predictThrows env \<and> \<not> dataRejects env \<and>
    predict m x (random env) e1 = (Inr (y, e2), m', g') \<and>
    (stemiDetected r \<longleftrightarrow> 0.5 < vals y ! 1) \<and>
    confidence r = 100 * max (vals y ! 1) (vals y ! 0)"
  using assms
proof (induction evs rule: rev_induct)
  case Nil
  then show ?case
    by (simp add: session_fold loadModel_def initial_def Let_def split: if_splits)
next
  case (snoc ev evs)
  from snoc.prems have "prediction (handle ev (session menv evs)) = Some r"
    by (simp add: session_snoc)
  from handle_prediction_origin [OF this]
  show ?case
  proof
    assume "prediction (session menv evs) = Some r"
    from snoc.IH [OF this] obtain pre env post src m img x e1 y e2 m' g' where
      "evs = pre @ ClickAnalyze env # post"
      "imagePreview (session menv pre) = Some src" "model (session menv pre) = Some m"
      "decode env src = Some img"
      "preprocessImage img (tf (session menv pre)) = (Some x, e1)"
      "\<not> predictThrows env" "\<not> dataRejects env"
      "predict m x (random env) e1 = (Inr (y, e2), m', g')"
      "stemiDetected r \<longleftrightarrow> 0.5 < vals y ! 1"
      "confidence r = 100 * max (vals y ! 1) (vals y ! 0)"
      by blast
    moreover from this(1) have "evs @ [ev] = pre @ ClickAnalyze env # (post @ [ev])"
      by simp
    ultimately show ?thesis by blast
  next
    assume "\<exists>env src m img x e1 y e2 m' g'.
       ev = ClickAnalyze env \<and> imagePreview (session menv evs) = Some src \<and>
       model (session menv evs) = Some m \<and>
       decode env src = Some img \<and>
       preprocessImage img (tf (session menv evs)) = (Some x, e1) \<and>
       \<not> predictThrows env \<and> \<not> dataRejects env \<and>
       predict m x (random env) e1 = (Inr (y, e2), m', g') \<and>
       (stemiDetected r \<longleftrightarrow> 0.5 < vals y ! 1) \<and>
       confidence r = 100 * max (vals y ! 1) (vals y ! 0) \<and>
       stemiProbability r = 100 * vals y ! 1 \<and>
       noStemiProbability r = 100 * vals y ! 0"
    then obtain env src m img x e1 y e2 m' g' where
      "ev = ClickAnalyze env"
      "imagePreview (session menv evs) = Some src" "model (session menv evs) = Some m"
      "decode env src = Some img"
      "preprocessImage img (tf (session menv evs)) = (Some x, e1)"
      "\<not> predictThrows env" "\<not> dataRejects env"
      "predict m x (random env) e1 = (Inr (y, e2), m', g')"
      "stemiDetected r \<longleftrightarrow> 0.5 < vals y ! 1"
      "confidence r = 100 * max (vals y ! 1) (vals y ! 0)"
      by blast
    moreover from this(1) have "evs @ [ev] = evs @ ClickAnalyze env # []" by simp
    ultimately show ?thesis by blast
  qed
qed

text \<open>A session that does render a result, and the theorem there.\<close>

theorem rendered_result_from_prediction_witness:
  "\<exists>r. prediction (session \<lparr>backendFails = False, initKernel = \<lambda>i j. 0, initBias = \<lambda>i j. 0\<rparr>
       [ChooseFile (Some ''ecg''),
        ClickAnalyze \<lparr>decode = \<lambda>url. Some \<lparr>width = 2, height = 2, data = replicate 16 255\<rparr>,
          predictThrows = False, dataRejects = False, random = \<lambda>i. 0\<rparr>]) = Some r \<and>
     (\<exists>pre env post src m img x e1 y e2 m' g'.
        [ChooseFile (Some ''ecg''),
         ClickAnalyze \<lparr>decode = \<lambda>url. Some \<lparr>width = 2, height = 2, data = replicate 16 255\<rparr>,
           predictThrows = False, dataRejects = False, random = \<lambda>i. 0\<rparr>]
          = pre @ ClickAnalyze env # post \<and>
        imagePreview (session \<lparr>backendFails = False, initKernel = \<lambda>i j. 0,
                               initBias = \<lambda>i j. 0\<rparr> pre) = Some src \<and>
        model (session \<lparr>backendFails = False, initKernel = \<lambda>i j. 0,
                         initBias = \<lambda>i j. 0\<rparr> pre) = Some m \<and>
        decode env src = Some img \<and>
        preprocessImage img (tf (session \<lparr>backendFails = False, initKernel = \<lambda>i j. 0,
                                          initBias = \<lambda>i j. 0\<rparr> pre)) = (Some x, e1) \<and>
        \<not> predictThrows env \<and> \<not> dataRejects env \<and>
        predict m x (random env) e1 = (Inr (y, e2), m', g') \<and>
        (stemiDetected r \<longleftrightarrow> 0.5 < vals y ! 1) \<and>
        confidence r = 100 * max (vals y ! 1) (vals y ! 0))"
proof -
  let ?M = "\<lparr>backendFails = False, initKernel = \<lambda>i j. 0, initBias = \<lambda>i j. 0\<rparr>"
  let ?img = "\<lparr>width = 2, height = 2, data = replicate 16 255\<rparr>"
  let ?env = "\<lparr>decode = \<lambda>url. Some ?img, predictThrows = False, dataRejects = False,
      random = \<lambda>i. 0\<rparr>"
  have "\<exists>r. session ?M [ChooseFile (Some ''ecg''), ClickAnalyze ?env] =
     \<lparr>model = Some (buildModel (initKernel ?M) (initBias ?M)), imagePreview = Some ''ecg'',
      prediction = Some r, loading = False, modelLoading = False,
      tf = \<lparr>live = [3, 2, 1, 0], nextId = 6\<rparr>, console = [], alerts = []\<rparr>"
    by (rule session_analyze_success [where img = ?img]) (simp_all add: valid_image_def)
  then obtain r where
    r: "prediction (session ?M [ChooseFile (Some ''ecg''), ClickAnalyze ?env]) = Some r"
    by auto
  from rendered_result_from_prediction [OF r] r show ?thesis by blast
qed

end
